theory Spec2Isabelle
  imports Complex_Main
begin

section \<open>JavaScript numbers\<close>

text \<open>
  The parser keeps its cursor, its header byte count and the remaining body length in
  JavaScript numbers, and obtains the latter from header text by unary plus and
  \<^verbatim>\<open>parseInt\<close>. Such a number can be NaN, an infinity, negative or fractional, and
  the handlers behave differently on each. Numbers are therefore modelled as
  rationals extended by NaN and the two infinities. The conversion of text to a number
  rounds to the nearest double (\<open>to_double\<close>), so that two texts are \<^verbatim>\<open>===\<close> as
  numbers exactly when they round to the same double. Sums and differences are exact,
  which is what the code computes as long as the operands and the result are whole
  numbers below \<open>2^53\<close> in magnitude. Positive and negative zero are one value,
  which is what \<^verbatim>\<open>===\<close> sees.
\<close>

datatype jsnum = NaN | NInf | PInf | Fin rat

fun js_neg :: "jsnum \<Rightarrow> jsnum" where
  "js_neg NaN = NaN"
| "js_neg NInf = PInf"
| "js_neg PInf = NInf"
| "js_neg (Fin a) = Fin (- a)"

fun js_add :: "jsnum \<Rightarrow> jsnum \<Rightarrow> jsnum" where
  "js_add NaN b = NaN"
| "js_add NInf b = (if b = NaN \<or> b = PInf then NaN else NInf)"
| "js_add PInf b = (if b = NaN \<or> b = NInf then NaN else PInf)"
| "js_add (Fin a) NaN = NaN"
| "js_add (Fin a) NInf = NInf"
| "js_add (Fin a) PInf = PInf"
| "js_add (Fin a) (Fin b) = Fin (a + b)"

definition js_sub :: "jsnum \<Rightarrow> jsnum \<Rightarrow> jsnum" where
  "js_sub a b = js_add a (js_neg b)"

text \<open>\<^verbatim>\<open>a < b\<close>: false as soon as one side is NaN.\<close>

fun js_lt :: "jsnum \<Rightarrow> jsnum \<Rightarrow> bool" where
  "js_lt NaN b = False"
| "js_lt NInf b = (case b of PInf \<Rightarrow> True | Fin r \<Rightarrow> True | _ \<Rightarrow> False)"
| "js_lt PInf b = False"
| "js_lt (Fin a) NaN = False"
| "js_lt (Fin a) NInf = False"
| "js_lt (Fin a) PInf = True"
| "js_lt (Fin a) (Fin b) = (a < b)"

text \<open>\<^verbatim>\<open>a <= b\<close>.\<close>

definition js_le :: "jsnum \<Rightarrow> jsnum \<Rightarrow> bool" where
  "js_le a b = (a \<noteq> NaN \<and> b \<noteq> NaN \<and> (a = b \<or> js_lt a b))"

text \<open>\<^verbatim>\<open>a === b\<close> on numbers: NaN equals nothing.\<close>

definition js_eq :: "jsnum \<Rightarrow> jsnum \<Rightarrow> bool" where
  "js_eq a b = (a \<noteq> NaN \<and> a = b)"

text \<open>\<^verbatim>\<open>Math.min(a, b)\<close>: NaN as soon as one argument is.\<close>

definition js_min :: "jsnum \<Rightarrow> jsnum \<Rightarrow> jsnum" where
  "js_min a b = (if a = NaN \<or> b = NaN then NaN else if js_lt b a then b else a)"

text \<open>
  Conversion of an exact value to a number (\<^verbatim>\<open>roundTiesToEven\<close>). The magnitude is a
  quotient \<open>a / b\<close> of natural numbers with \<open>b > 0\<close>. \<open>bit_length a\<close> is the number
  of binary digits of \<open>a\<close>, and \<open>binary_exponent a b\<close> the \<open>e\<close> with
  \<open>2^e \<le> a / b < 2^(e + 1)\<close>. A double has 53 binary digits from the exponent
  \<open>max e (-1022)\<close> down: the quotient is rounded to the nearest multiple of
  \<open>2^(max e (-1022) - 52)\<close>, to the even one of two nearest, and a result of \<open>2^1024\<close>
  is an infinity.
\<close>

fun bit_length :: "nat \<Rightarrow> nat" where
  "bit_length n = (if n = 0 then 0 else Suc (bit_length (n div 2)))"

declare bit_length.simps [simp del]

definition round_half_even :: "nat \<Rightarrow> nat \<Rightarrow> nat" where
  "round_half_even a b =
     (if 2 * (a mod b) < b then a div b
      else if b < 2 * (a mod b) then a div b + 1
      else if even (a div b) then a div b
      else a div b + 1)"

definition binary_exponent :: "nat \<Rightarrow> nat \<Rightarrow> int" where
  "binary_exponent a b =
     int (bit_length a) - int (bit_length b)
       - (if a * 2 ^ bit_length b < b * 2 ^ bit_length a then 1 else 0)"

definition nearest_double :: "nat \<Rightarrow> nat \<Rightarrow> jsnum" where
  "nearest_double a b =
     (if a = 0 then Fin 0
      else if 52 \<le> max (binary_exponent a b) (- 1022) then
        (if 2 ^ 1024
              \<le> round_half_even a (b * 2 ^ nat (max (binary_exponent a b) (- 1022) - 52))
                  * 2 ^ nat (max (binary_exponent a b) (- 1022) - 52)
         then PInf
         else Fin (of_nat
                (round_half_even a (b * 2 ^ nat (max (binary_exponent a b) (- 1022) - 52))
                   * 2 ^ nat (max (binary_exponent a b) (- 1022) - 52))))
      else Fin (of_nat
             (round_half_even (a * 2 ^ nat (52 - max (binary_exponent a b) (- 1022))) b)
                / 2 ^ nat (52 - max (binary_exponent a b) (- 1022))))"

definition to_double :: "bool \<Rightarrow> nat \<Rightarrow> nat \<Rightarrow> jsnum" where
  "to_double neg a b = (if neg then js_neg (nearest_double a b) else nearest_double a b)"

section \<open>Bytes, characters and strings\<close>

text \<open>
  A chunk is a list of bytes. \<^verbatim>\<open>Buffer.toString('ascii', ...)\<close> (the value of
  \<^verbatim>\<open>HTTPParser.encoding\<close>) clears the highest bit of every byte, so the characters of
  a line are 7-bit, and a line can contain a line feed that came from the byte 0x8A.
\<close>

abbreviation LF :: char where "LF \<equiv> CHR 0x0A"
abbreviation CR :: char where "CR \<equiv> CHR 0x0D"
abbreviation TAB :: char where "TAB \<equiv> CHR 0x09"
abbreviation SP :: char where "SP \<equiv> CHR 0x20"

fun ascii_char :: "char \<Rightarrow> char" where
  "ascii_char (Char b0 b1 b2 b3 b4 b5 b6 b7) = Char b0 b1 b2 b3 b4 b5 b6 False"

definition code_of :: "char \<Rightarrow> nat" where
  "code_of c = of_char c"

text \<open>\<^verbatim>\<open>chunk.toString('ascii', start, end)\<close> for integral \<open>0 \<le> start\<close>, \<open>end \<le> length\<close>.\<close>

definition to_string :: "char list \<Rightarrow> nat \<Rightarrow> nat \<Rightarrow> string" where
  "to_string chunk start end = map ascii_char (take (end - start) (drop start chunk))"

definition is_upper :: "char \<Rightarrow> bool" where
  "is_upper c = (65 \<le> code_of c \<and> code_of c \<le> 90)"

definition is_digit :: "char \<Rightarrow> bool" where
  "is_digit c = (48 \<le> code_of c \<and> code_of c \<le> 57)"

fun set_bit5 :: "char \<Rightarrow> char" where
  "set_bit5 (Char b0 b1 b2 b3 b4 b5 b6 b7) = Char b0 b1 b2 b3 b4 True b6 b7"

text \<open>\<^verbatim>\<open>toLowerCase\<close> on a 7-bit string: only A to Z change.\<close>

definition to_lower :: "string \<Rightarrow> string" where
  "to_lower s = map (\<lambda>c. if is_upper c then set_bit5 c else c) s"

text \<open>\<^verbatim>\<open>s.indexOf(sub) !== -1\<close>.\<close>

fun contains :: "string \<Rightarrow> string \<Rightarrow> bool" where
  "contains [] sub = (sub = [])"
| "contains (c # cs) sub = (take (length sub) (c # cs) = sub \<or> contains cs sub)"

text \<open>\<^verbatim>\<open>xs.indexOf(x)\<close>, with -1 when \<open>x\<close> is absent.\<close>

fun index_of :: "'a list \<Rightarrow> 'a \<Rightarrow> int" where
  "index_of [] x = -1"
| "index_of (y # ys) x =
     (if y = x then 0 else (let i = index_of ys x in if i = -1 then -1 else i + 1))"

definition methods :: "string list" where
  "methods =
    [''DELETE'', ''GET'', ''HEAD'', ''POST'', ''PUT'', ''CONNECT'', ''OPTIONS'', ''TRACE'',
     ''COPY'', ''LOCK'', ''MKCOL'', ''MOVE'', ''PROPFIND'', ''PROPPATCH'', ''SEARCH'',
     ''UNLOCK'', ''BIND'', ''REBIND'', ''UNBIND'', ''ACL'', ''REPORT'', ''MKACTIVITY'',
     ''CHECKOUT'', ''MERGE'', ''M-SEARCH'', ''NOTIFY'', ''SUBSCRIBE'', ''UNSUBSCRIBE'',
     ''PATCH'', ''PURGE'', ''MKCALENDAR'', ''LINK'', ''UNLINK'']"

definition maxHeaderSize :: rat where
  "maxHeaderSize = 80 * 1024"

subsection \<open>Text to number\<close>

text \<open>The white space of \<^verbatim>\<open>StrWhiteSpaceChar\<close> that a 7-bit string can contain.\<close>

definition is_js_space :: "char \<Rightarrow> bool" where
  "is_js_space c = (code_of c \<in> {9, 10, 11, 12, 13, 32})"

definition digit_val :: "char \<Rightarrow> nat" where
  "digit_val c =
     (if is_digit c then code_of c - 48
      else if 97 \<le> code_of c \<and> code_of c \<le> 102 then code_of c - 87
      else code_of c - 55)"

definition is_hex :: "char \<Rightarrow> bool" where
  "is_hex c = (is_digit c \<or> (97 \<le> code_of c \<and> code_of c \<le> 102) \<or> (65 \<le> code_of c \<and> code_of c \<le> 70))"

definition is_octal :: "char \<Rightarrow> bool" where
  "is_octal c = (48 \<le> code_of c \<and> code_of c \<le> 55)"

definition is_binary :: "char \<Rightarrow> bool" where
  "is_binary c = (c = CHR ''0'' \<or> c = CHR ''1'')"

definition radix_val :: "nat \<Rightarrow> string \<Rightarrow> nat" where
  "radix_val b s = foldl (\<lambda>a c. b * a + digit_val c) 0 s"

text \<open>
  \<^verbatim>\<open>StrUnsignedDecimalLiteral\<close> without \<^verbatim>\<open>Infinity\<close>: digits, an optional fraction,
  an optional exponent; a digit is required before or after the point. Its value is
  given as a numerator and a denominator.
\<close>

definition exponent_part :: "string \<Rightarrow> int option" where
  "exponent_part s =
     (case s of
        [] \<Rightarrow> Some 0
      | c # t \<Rightarrow>
          if c = CHR ''e'' \<or> c = CHR ''E'' then
            (let neg = (t \<noteq> [] \<and> hd t = CHR ''-'');
                 d = (if t \<noteq> [] \<and> (hd t = CHR ''-'' \<or> hd t = CHR ''+'') then tl t else t)
             in if d \<noteq> [] \<and> list_all is_digit d
                then Some (if neg then - int (radix_val 10 d) else int (radix_val 10 d))
                else None)
          else None)"

definition unsigned_decimal :: "string \<Rightarrow> (nat \<times> nat) option" where
  "unsigned_decimal s =
     (let ip = takeWhile is_digit s;
          r1 = dropWhile is_digit s;
          dot = (r1 \<noteq> [] \<and> hd r1 = CHR ''.'');
          fp = (if dot then takeWhile is_digit (tl r1) else []);
          r2 = (if dot then dropWhile is_digit (tl r1) else r1)
      in if ip = [] \<and> fp = [] then None
         else (case exponent_part r2 of
                 None \<Rightarrow> None
               | Some e \<Rightarrow>
                   Some (if e < 0
                         then (radix_val 10 (ip @ fp), 10 ^ length fp * 10 ^ nat (- e))
                         else (radix_val 10 (ip @ fp) * 10 ^ nat e, 10 ^ length fp))))"

definition prefixed_literal :: "string \<Rightarrow> jsnum option" where
  "prefixed_literal t =
     (if length t < 2 \<or> hd t \<noteq> CHR ''0'' then None
      else (let k = t ! 1; d = drop 2 t in
        if k = CHR ''x'' \<or> k = CHR ''X'' then
          Some (if d \<noteq> [] \<and> list_all is_hex d then to_double False (radix_val 16 d) 1 else NaN)
        else if k = CHR ''o'' \<or> k = CHR ''O'' then
          Some (if d \<noteq> [] \<and> list_all is_octal d then to_double False (radix_val 8 d) 1 else NaN)
        else if k = CHR ''b'' \<or> k = CHR ''B'' then
          Some (if d \<noteq> [] \<and> list_all is_binary d then to_double False (radix_val 2 d) 1 else NaN)
        else None))"

text \<open>Unary plus on a string (\<^verbatim>\<open>StringToNumber\<close>): the empty string is zero.\<close>

definition to_number :: "string \<Rightarrow> jsnum" where
  "to_number s =
     (let t = rev (dropWhile is_js_space (rev (dropWhile is_js_space s))) in
      if t = [] then Fin 0
      else (case prefixed_literal t of
              Some v \<Rightarrow> v
            | None \<Rightarrow>
                (let neg = (hd t = CHR ''-'');
                     u = (if hd t = CHR ''-'' \<or> hd t = CHR ''+'' then tl t else t)
                 in if u = ''Infinity'' then (if neg then NInf else PInf)
                    else (case unsigned_decimal u of
                            None \<Rightarrow> NaN
                          | Some (a, b) \<Rightarrow> to_double neg a b))))"

text \<open>
  \<^verbatim>\<open>parseInt(s, 16)\<close>: leading white space, a sign, an optional \<^verbatim>\<open>0x\<close>, then the longest
  run of hexadecimal digits; what follows is ignored; no digit gives NaN.
\<close>

definition parseInt16 :: "string \<Rightarrow> jsnum" where
  "parseInt16 s =
     (let t = dropWhile is_js_space s;
          neg = (t \<noteq> [] \<and> hd t = CHR ''-'');
          u = (if t \<noteq> [] \<and> (hd t = CHR ''-'' \<or> hd t = CHR ''+'') then tl t else t);
          v = (if take 2 u = ''0x'' \<or> take 2 u = ''0X'' then drop 2 u else u);
          z = takeWhile is_hex v
      in if z = [] then NaN
         else to_double neg (radix_val 16 z) 1)"

section \<open>The regular expressions\<close>

text \<open>
  Each regular expression of the source is a function from the line to its capture
  groups, \<open>None\<close> when \<^verbatim>\<open>exec\<close> returns null. A dot matches every character but
  LF and CR; a negated class matches those too.
\<close>

definition ws_char :: "char \<Rightarrow> bool" where
  "ws_char c = (c = SP \<or> c = TAB)"

definition name_char :: "char \<Rightarrow> bool" where
  "name_char c = (c \<noteq> CHR '':'' \<and> c \<noteq> SP \<and> c \<noteq> TAB)"

definition dot_char :: "char \<Rightarrow> bool" where
  "dot_char c = (c \<noteq> LF \<and> c \<noteq> CR)"

definition rstrip :: "string \<Rightarrow> string" where
  "rstrip s = rev (dropWhile ws_char (rev s))"

text \<open>
  The group \<^verbatim>\<open>(.*[^ \t])\<close> matched at the start of \<open>s\<close>: the greedy dot run, then
  the line terminator that stopped it if there is one, otherwise the run without its
  trailing blanks; no match when nothing but blanks is left.
\<close>

definition dot_star_nonws :: "string \<Rightarrow> string option" where
  "dot_star_nonws s =
     (let d = takeWhile dot_char s; r = dropWhile dot_char s in
      if r \<noteq> [] then Some (d @ [hd r])
      else if rstrip d = [] then None
      else Some (rstrip d))"

text \<open>\<^verbatim>\<open>HEADER_REGEX = /^([^: \t]+):[ \t]*((?:.*[^ \t])|)/\<close>\<close>

definition HEADER_REGEX :: "string \<Rightarrow> (string \<times> string) option" where
  "HEADER_REGEX l =
     (let n = takeWhile name_char l; r = dropWhile name_char l in
      if n = [] \<or> r = [] \<or> hd r \<noteq> CHR '':'' then None
      else Some (n, case dot_star_nonws (dropWhile ws_char (tl r)) of
                      Some v \<Rightarrow> v
                    | None \<Rightarrow> []))"

text \<open>\<^verbatim>\<open>HEADER_CONTINUE_REGEX = /^[ \t]+(.*[^ \t])/\<close>\<close>

definition HEADER_CONTINUE_REGEX :: "string \<Rightarrow> string option" where
  "HEADER_CONTINUE_REGEX l =
     (if takeWhile ws_char l = [] then None else dot_star_nonws (dropWhile ws_char l))"

definition method_char :: "char \<Rightarrow> bool" where
  "method_char c = (is_upper c \<or> c = CHR ''-'')"

definition not_space :: "char \<Rightarrow> bool" where
  "not_space c = (c \<noteq> SP)"

text \<open>\<^verbatim>\<open>HTTP\/(\d)\.(\d)\<close> matched against a whole string.\<close>

definition http_version :: "string \<Rightarrow> (nat \<times> nat) option" where
  "http_version s =
     (if length s = 8 \<and> take 5 s = ''HTTP/'' \<and> is_digit (s ! 5) \<and> s ! 6 = CHR ''.''
         \<and> is_digit (s ! 7)
      then Some (digit_val (s ! 5), digit_val (s ! 7))
      else None)"

text \<open>\<^verbatim>\<open>REQUEST_REGEX = /^([A-Z-]+) ([^ ]+) HTTP\/(\d)\.(\d)$/\<close>\<close>

definition REQUEST_REGEX :: "string \<Rightarrow> (string \<times> string \<times> nat \<times> nat) option" where
  "REQUEST_REGEX l =
     (let m = takeWhile method_char l; r1 = dropWhile method_char l in
      if m = [] \<or> r1 = [] \<or> hd r1 \<noteq> SP then None
      else (let u = takeWhile not_space (tl r1); r2 = dropWhile not_space (tl r1) in
        if u = [] \<or> r2 = [] then None
        else (case http_version (tl r2) of
                None \<Rightarrow> None
              | Some (a, b) \<Rightarrow> Some (m, u, a, b))))"

text \<open>\<^verbatim>\<open>RESPONSE_REGEX = /^HTTP\/(\d)\.(\d) (\d{3}) ?(.*)$/\<close>\<close>

definition RESPONSE_REGEX :: "string \<Rightarrow> (nat \<times> nat \<times> nat \<times> string) option" where
  "RESPONSE_REGEX l =
     (case http_version (take 8 l) of
        None \<Rightarrow> None
      | Some (a, b) \<Rightarrow>
          (let r = drop 8 l; code = take 3 (drop 1 r); rest = drop 4 r in
           if r \<noteq> [] \<and> hd r = SP \<and> length code = 3 \<and> list_all is_digit code
              \<and> list_all dot_char rest
           then Some (a, b, radix_val 10 code,
                      if rest \<noteq> [] \<and> hd rest = SP then tl rest else rest)
           else None))"

section \<open>The parser\<close>

datatype parser_type = REQUEST | RESPONSE

datatype pstate =
    St_REQUEST_LINE | St_RESPONSE_LINE | St_HEADER
  | St_BODY_CHUNK | St_BODY_CHUNKHEAD | St_BODY_CHUNKEND | St_BODY_CHUNKTRAILERS
  | St_BODY_SIZED | St_BODY_RAW

datatype error_code =
    HPE_INVALID_CONSTANT | HPE_INVALID_METHOD | HPE_LF_EXPECTED
  | HPE_UNEXPECTED_CONTENT_LENGTH | HPE_INVALID_CHUNK_SIZE | HPE_STRICT
  | HPE_HEADER_OVERFLOW | HPE_INVALID_EOF_STATE

text \<open>An optional field of \<^verbatim>\<open>info\<close> that is \<^verbatim>\<open>undefined\<close> is \<open>None\<close>.\<close>

record info =
  "method" :: "int option"
  url :: "string option"
  statusCode :: "nat option"
  statusMessage :: "string option"
  versionMajor :: "nat option"
  versionMinor :: "nat option"
  headers :: "string list"
  trailers :: "string list"
  upgrade :: bool
  connection :: "string option"
  shouldKeepAlive_val :: "bool option"

text \<open>\<open>chunk\<close> is \<open>None\<close> when the field is null; \<open>len\<close> is the field \<^verbatim>\<open>length\<close>.\<close>

record parser =
  ptype :: parser_type
  state :: pstate
  info :: info
  chunk :: "char list option"
  offset :: jsnum
  len :: nat
  line :: string
  isChunked :: bool
  headerSize :: jsnum
  bodyBytes :: "jsnum option"
  hadError :: bool

text \<open>
  The callbacks are the host's. Their calls are recorded as events, in order; the one
  whose result the parser reads, \<^verbatim>\<open>kOnHeadersComplete\<close>, is a function of its
  arguments to an integer (0 for a falsy result, any value other than 0, 1 and 2 for
  \<^verbatim>\<open>true\<close>). Callbacks are taken to return normally.
\<close>

record hc_args =
  arg_versionMajor :: "nat option"
  arg_versionMinor :: "nat option"
  arg_headers :: "string list"
  arg_method :: "int option"
  arg_url :: "string option"
  arg_statusCode :: "nat option"
  arg_statusMessage :: "string option"
  arg_upgrade :: bool
  arg_shouldKeepAlive :: bool

datatype event =
    OnHeaders "string list" string
  | OnHeadersComplete hc_args
  | OnBody "char list option" jsnum jsnum
  | OnMessageComplete

type_synonym on_headers_complete = "hc_args \<Rightarrow> int"

definition empty_info :: info where
  "empty_info =
     \<lparr>method = None, url = None, statusCode = None, statusMessage = None,
      versionMajor = None, versionMinor = None, headers = [], trailers = [],
      upgrade = False, connection = None, shouldKeepAlive_val = None\<rparr>"

definition initialize :: "parser_type \<Rightarrow> parser \<Rightarrow> parser" where
  "initialize t p =
     p\<lparr>ptype := t,
       state := (case t of REQUEST \<Rightarrow> St_REQUEST_LINE | RESPONSE \<Rightarrow> St_RESPONSE_LINE),
       info := empty_info, isChunked := False, headerSize := Fin 0, bodyBytes := None,
       hadError := False\<rparr>"

text \<open>A parser after its constructor and \<^verbatim>\<open>initialize(t)\<close>.\<close>

definition new_parser :: "parser_type \<Rightarrow> parser" where
  "new_parser t =
     initialize t
       \<lparr>ptype = t, state = St_REQUEST_LINE, info = empty_info, chunk = None,
        offset = Fin 0, len = 0, line = [], isChunked = False, headerSize = Fin 0,
        bodyBytes = None, hadError = False\<rparr>"

definition HEADER_STATES :: "pstate list" where
  "HEADER_STATES = [St_REQUEST_LINE, St_RESPONSE_LINE, St_HEADER]"

definition FINISH_STATES :: "pstate list" where
  "FINISH_STATES = [St_REQUEST_LINE, St_RESPONSE_LINE, St_BODY_RAW]"

definition nextRequest :: "parser \<Rightarrow> parser \<times> event list" where
  "nextRequest p = (initialize (ptype p) p, [OnMessageComplete])"

subsection \<open>The line reader\<close>

text \<open>
  \<open>consumeLine\<close> looks for a line feed at the indices \<open>offset, offset + 1, ...\<close> below
  \<open>length\<close>. A negative index reads \<^verbatim>\<open>undefined\<close>, and so does every index when the
  offset is fractional: then no line feed is found. \<^verbatim>\<open>toString\<close> truncates its start
  and takes a start of at most 0, or NaN, as 0. From the offset minus infinity, and from
  a double of \<open>- 2^53 - 4\<close> or less, which \<^verbatim>\<open>i++\<close> leaves as it is, the scan never ends
  (\<open>Hang\<close>); on a null chunk the first read throws a TypeError.
\<close>

datatype line_result = Line string parser | NoLine parser | LineThrows | Hang

definition find_lf :: "nat \<Rightarrow> nat \<Rightarrow> char list \<Rightarrow> nat option" where
  "find_lf start end c =
     (let r = take (end - start) (drop start c) in
      if LF \<in> set r then Some (start + length (takeWhile (\<lambda>b. b \<noteq> LF) r)) else None)"

definition strip_cr :: "string \<Rightarrow> string" where
  "strip_cr l = (if l \<noteq> [] \<and> last l = CR then butlast l else l)"

definition consumeLine :: "parser \<Rightarrow> line_result" where
  "consumeLine p =
     (case chunk p of
        None \<Rightarrow> LineThrows
      | Some c \<Rightarrow>
         (case offset p of
            NInf \<Rightarrow> Hang
          | PInf \<Rightarrow> NoLine (p\<lparr>offset := Fin (of_nat (len p))\<rparr>)
          | NaN \<Rightarrow>
              NoLine (p\<lparr>line := line p @ to_string c 0 (len p), offset := Fin (of_nat (len p))\<rparr>)
          | Fin r \<Rightarrow>
              if r \<le> - (2 ^ 53) - 4 then Hang
              else
              (let start = nat \<lfloor>r\<rfloor> in
               case (if of_int \<lfloor>r\<rfloor> = r then find_lf start (len p) c else None) of
                 Some i \<Rightarrow>
                   Line (strip_cr (line p @ to_string c start i))
                        (p\<lparr>line := [], offset := Fin (of_nat i + 1)\<rparr>)
               | None \<Rightarrow>
                   NoLine (p\<lparr>line := line p @ to_string c start (len p),
                             offset := Fin (of_nat (len p))\<rparr>))))"

subsection \<open>Header lines\<close>

definition parseHeader :: "string \<Rightarrow> string list \<Rightarrow> error_code + string list" where
  "parseHeader l hs =
     (if CR \<in> set l then Inl HPE_LF_EXPECTED
      else (case HEADER_REGEX l of
              Some (n, v) \<Rightarrow> Inr (hs @ [n, v])
            | None \<Rightarrow>
                (case HEADER_CONTINUE_REGEX l of
                   Some m \<Rightarrow>
                     if hs \<noteq> []
                     then Inr (butlast hs @ [last hs @ (if last hs \<noteq> [] then '' '' else []) @ m])
                     else Inr hs
                 | None \<Rightarrow> Inr hs)))"

subsection \<open>The state handlers\<close>

text \<open>
  A handler returns normally with its result read as a boolean (\<open>Continue\<close>), throws a
  ParseError (\<open>Raise\<close>), throws a TypeError (\<open>Throws\<close>) or never returns (\<open>Hangs\<close>);
  it comes with the parser as it leaves it and the callbacks it has made.
\<close>

datatype hres =
    Continue bool parser "event list"
  | Raise error_code parser
  | Throws parser
  | Hangs

text \<open>
  Six handlers open with \<^verbatim>\<open>const line = this.consumeLine(); if (line === undefined) return;\<close>.
  \<open>with_line p k\<close> is that opening followed by the rest \<open>k\<close> of the handler, which
  gets the line and the parser as \<open>consumeLine\<close> leaves it.
\<close>

definition with_line :: "parser \<Rightarrow> (string \<Rightarrow> parser \<Rightarrow> hres) \<Rightarrow> hres" where
  "with_line p k =
     (case consumeLine p of
        Hang \<Rightarrow> Hangs
      | LineThrows \<Rightarrow> Throws p
      | NoLine p' \<Rightarrow> Continue False p' []
      | Line l p' \<Rightarrow> k l p')"

definition request_line :: "string \<Rightarrow> parser \<Rightarrow> hres" where
  "request_line l p =
     (if l = [] then Continue False p []
      else (case REQUEST_REGEX l of
              None \<Rightarrow> Raise HPE_INVALID_CONSTANT p
            | Some (m, u, a, b) \<Rightarrow>
                if index_of methods m = -1
                then Raise HPE_INVALID_METHOD (p\<lparr>info := (info p)\<lparr>method := Some (-1)\<rparr>\<rparr>)
                else Continue False
                       (p\<lparr>info := (info p)\<lparr>method := Some (index_of methods m), url := Some u,
                                           versionMajor := Some a, versionMinor := Some b\<rparr>,
                          bodyBytes := Some (Fin 0), state := St_HEADER\<rparr>) []))"

definition REQUEST_LINE :: "parser \<Rightarrow> hres" where
  "REQUEST_LINE p = with_line p request_line"

definition implied_zero :: "nat \<Rightarrow> bool" where
  "implied_zero code = (code div 100 = 1 \<or> code = 204 \<or> code = 304)"

definition response_line :: "string \<Rightarrow> parser \<Rightarrow> hres" where
  "response_line l p =
     (if l = [] then Continue False p []
      else (case RESPONSE_REGEX l of
              None \<Rightarrow> Raise HPE_INVALID_CONSTANT p
            | Some (a, b, code, msg) \<Rightarrow>
                Continue False
                  (p\<lparr>info := (info p)\<lparr>versionMajor := Some a, versionMinor := Some b,
                                      statusCode := Some code, statusMessage := Some msg\<rparr>,
                     bodyBytes := (if implied_zero code then Some (Fin 0) else bodyBytes p),
                     state := St_HEADER\<rparr>) []))"

definition RESPONSE_LINE :: "parser \<Rightarrow> hres" where
  "RESPONSE_LINE p = with_line p response_line"

definition positive :: "nat option \<Rightarrow> bool" where
  "positive v = (case v of None \<Rightarrow> False | Some n \<Rightarrow> 0 < n)"

text \<open>
  With \<^verbatim>\<open>connection\<close> undefined, \<^verbatim>\<open>connection?.indexOf(..)\<close> is undefined, which differs
  from -1: the first test succeeds and the second fails.
\<close>

definition shouldKeepAlive :: "parser \<Rightarrow> bool" where
  "shouldKeepAlive p =
     (if positive (versionMajor (info p)) \<and> positive (versionMinor (info p)) then
        (if (case connection (info p) of None \<Rightarrow> True | Some c \<Rightarrow> contains c ''close'')
         then False
         else bodyBytes p \<noteq> None \<or> isChunked p)
      else if (case connection (info p) of None \<Rightarrow> False | Some c \<Rightarrow> \<not> contains c ''keep-alive'')
      then False
      else bodyBytes p \<noteq> None \<or> isChunked p)"

text \<open>
  The loop over the headers at the end of the header block. Its state is the parser and
  the locals \<^verbatim>\<open>hasContentLength\<close> and \<^verbatim>\<open>hasUpgradeHeader\<close>. \<^verbatim>\<open>connection += v\<close> on an
  undefined \<^verbatim>\<open>connection\<close> gives the text \<^verbatim>\<open>undefined\<close> followed by \<open>v\<close>. A name
  without a value (a list of odd length) has the value \<^verbatim>\<open>undefined\<close>: its
  \<^verbatim>\<open>toLowerCase\<close> throws a TypeError and its number is NaN.
\<close>

datatype scan_result =
    ScanOk bool bool parser
  | ScanRaise parser
  | ScanThrows parser

definition append_connection :: "string option \<Rightarrow> string \<Rightarrow> string option" where
  "append_connection c v = Some ((case c of None \<Rightarrow> ''undefined'' | Some s \<Rightarrow> s) @ v)"

definition scan_header ::
  "string \<Rightarrow> string option \<Rightarrow> bool \<Rightarrow> bool \<Rightarrow> parser \<Rightarrow> scan_result" where
  "scan_header n v hasCL hasUp p =
     (let name = to_lower n in
      if name = ''transfer-encoding'' then
        (case v of
           None \<Rightarrow> ScanThrows p
         | Some x \<Rightarrow> ScanOk hasCL hasUp (p\<lparr>isChunked := (to_lower x = ''chunked'')\<rparr>))
      else if name = ''content-length'' then
        (let contentLength = (case v of None \<Rightarrow> NaN | Some x \<Rightarrow> to_number x) in
         if hasCL \<and> \<not> (case bodyBytes p of None \<Rightarrow> False | Some b \<Rightarrow> js_eq contentLength b)
         then ScanRaise p
         else ScanOk True hasUp (p\<lparr>bodyBytes := Some contentLength\<rparr>))
      else if name = ''connection'' then
        (case v of
           None \<Rightarrow> ScanThrows p
         | Some x \<Rightarrow>
             ScanOk hasCL hasUp
               (p\<lparr>info := (info p)\<lparr>connection :=
                                      append_connection (connection (info p)) (to_lower x)\<rparr>\<rparr>))
      else if name = ''upgrade'' then ScanOk hasCL True p
      else ScanOk hasCL hasUp p)"

fun scan_headers :: "string list \<Rightarrow> bool \<Rightarrow> bool \<Rightarrow> parser \<Rightarrow> scan_result" where
  "scan_headers [] hasCL hasUp p = ScanOk hasCL hasUp p"
| "scan_headers [n] hasCL hasUp p = scan_header n None hasCL hasUp p"
| "scan_headers (n # v # hs) hasCL hasUp p =
     (case scan_header n (Some v) hasCL hasUp p of
        ScanOk hasCL' hasUp' p' \<Rightarrow> scan_headers hs hasCL' hasUp' p'
      | r \<Rightarrow> r)"

text \<open>\<^verbatim>\<open>HTTPParser.methods[info.method] === 'CONNECT'\<close>\<close>

definition is_connect :: "int option \<Rightarrow> bool" where
  "is_connect m =
     (case m of
        None \<Rightarrow> False
      | Some i \<Rightarrow> 0 \<le> i \<and> nat i < length methods \<and> methods ! nat i = ''CONNECT'')"

definition args_of :: "parser \<Rightarrow> bool \<Rightarrow> hc_args" where
  "args_of p ka =
     \<lparr>arg_versionMajor = versionMajor (info p), arg_versionMinor = versionMinor (info p),
      arg_headers = headers (info p), arg_method = method (info p), arg_url = url (info p),
      arg_statusCode = statusCode (info p), arg_statusMessage = statusMessage (info p),
      arg_upgrade = upgrade (info p), arg_shouldKeepAlive = ka\<rparr>"

text \<open>
  The part of \<^verbatim>\<open>HEADER\<close> after the empty line, in the order of the source: the loop
  over the headers (\<open>scan_headers\<close>), chunked wins over a content length
  (\<open>chunked_wins\<close>), the upgrade flag (\<open>upgrade_decision\<close>, which reads
  \<^verbatim>\<open>connection.indexOf\<close> and so throws a TypeError on an undefined \<^verbatim>\<open>connection\<close> when
  an Upgrade header was seen), \<open>shouldKeepAlive\<close>, the callback and the transition
  that its result \<open>skipBody\<close> selects.
\<close>

definition chunked_wins :: "bool \<Rightarrow> parser \<Rightarrow> parser" where
  "chunked_wins hasCL p = (if isChunked p \<and> hasCL then p\<lparr>bodyBytes := None\<rparr> else p)"

definition upgrade_decision :: "bool \<Rightarrow> parser \<Rightarrow> bool option" where
  "upgrade_decision hasUp p =
     (if hasUp then
        (case connection (info p) of
           None \<Rightarrow> None
         | Some c \<Rightarrow>
             Some (if contains c ''upgrade''
                   then ptype p = REQUEST \<or> statusCode (info p) = Some 101
                   else is_connect (method (info p))))
      else Some (is_connect (method (info p))))"

definition set_upgrade :: "bool \<Rightarrow> parser \<Rightarrow> parser" where
  "set_upgrade up p =
     p\<lparr>info := (info p)\<lparr>upgrade := up\<rparr>,
       isChunked := (if isChunked p \<and> up then False else isChunked p)\<rparr>"

definition set_keep_alive :: "bool \<Rightarrow> parser \<Rightarrow> parser" where
  "set_keep_alive ka p = p\<lparr>info := (info p)\<lparr>shouldKeepAlive_val := Some ka\<rparr>\<rparr>"

definition transition :: "int \<Rightarrow> event \<Rightarrow> parser \<Rightarrow> hres" where
  "transition skipBody ev p =
     (if skipBody = 2 then
        Continue True (fst (nextRequest p)) (ev # snd (nextRequest p))
      else if isChunked p \<and> skipBody = 0 then
        Continue False (p\<lparr>state := St_BODY_CHUNKHEAD\<rparr>) [ev]
      else if skipBody = 1 \<or> bodyBytes p = Some (Fin 0) then
        Continue (upgrade (info p)) (fst (nextRequest p)) (ev # snd (nextRequest p))
      else if bodyBytes p = None then
        Continue False (p\<lparr>state := St_BODY_RAW\<rparr>) [ev]
      else Continue False (p\<lparr>state := St_BODY_SIZED\<rparr>) [ev])"

definition call_headers_complete :: "on_headers_complete \<Rightarrow> bool \<Rightarrow> parser \<Rightarrow> hres" where
  "call_headers_complete cb ka p =
     transition (cb (args_of p ka)) (OnHeadersComplete (args_of p ka)) (set_keep_alive ka p)"

definition decide :: "on_headers_complete \<Rightarrow> bool \<Rightarrow> parser \<Rightarrow> hres" where
  "decide cb hasUp p =
     (case upgrade_decision hasUp p of
        None \<Rightarrow> Throws p
      | Some up \<Rightarrow>
          call_headers_complete cb (shouldKeepAlive (set_upgrade up p)) (set_upgrade up p))"

definition headers_complete :: "on_headers_complete \<Rightarrow> parser \<Rightarrow> hres" where
  "headers_complete cb p =
     (case scan_headers (headers (info p)) False False p of
        ScanRaise q \<Rightarrow> Raise HPE_UNEXPECTED_CONTENT_LENGTH q
      | ScanThrows q \<Rightarrow> Throws q
      | ScanOk hasCL hasUp q \<Rightarrow> decide cb hasUp (chunked_wins hasCL q))"

definition header_line :: "on_headers_complete \<Rightarrow> string \<Rightarrow> parser \<Rightarrow> hres" where
  "header_line cb l p =
     (if l \<noteq> [] then
        (case parseHeader l (headers (info p)) of
           Inl e \<Rightarrow> Raise e p
         | Inr hs \<Rightarrow> Continue False (p\<lparr>info := (info p)\<lparr>headers := hs\<rparr>\<rparr>) [])
      else headers_complete cb p)"

definition HEADER :: "on_headers_complete \<Rightarrow> parser \<Rightarrow> hres" where
  "HEADER cb p = with_line p (header_line cb)"

text \<open>\<^verbatim>\<open>bodyBytes\<close> read as a number: null counts as 0.\<close>

definition body_num :: "parser \<Rightarrow> jsnum" where
  "body_num p = (case bodyBytes p of None \<Rightarrow> Fin 0 | Some b \<Rightarrow> b)"

definition chunk_head :: "string \<Rightarrow> parser \<Rightarrow> hres" where
  "chunk_head l p =
     (if parseInt16 l = NaN then Raise HPE_INVALID_CHUNK_SIZE (p\<lparr>bodyBytes := Some NaN\<rparr>)
      else Continue False
             (p\<lparr>bodyBytes := Some (parseInt16 l),
                state := (if parseInt16 l = Fin 0 then St_BODY_CHUNKTRAILERS else St_BODY_CHUNK)\<rparr>)
             [])"

definition BODY_CHUNKHEAD :: "parser \<Rightarrow> hres" where
  "BODY_CHUNKHEAD p = with_line p chunk_head"

text \<open>
  The number of bytes that \<^verbatim>\<open>BODY_CHUNK\<close> and \<^verbatim>\<open>BODY_SIZED\<close> hand to \<^verbatim>\<open>kOnBody\<close>,
  \<^verbatim>\<open>Math.min(this.length - this.offset, this.bodyBytes)\<close>, and what is left of
  \<^verbatim>\<open>bodyBytes\<close> after them.
\<close>

definition body_take :: "parser \<Rightarrow> jsnum" where
  "body_take p = js_min (js_sub (Fin (of_nat (len p))) (offset p)) (body_num p)"

definition body_left :: "parser \<Rightarrow> jsnum" where
  "body_left p = js_sub (body_num p) (body_take p)"

definition BODY_CHUNK :: "parser \<Rightarrow> hres" where
  "BODY_CHUNK p =
     Continue False
       (p\<lparr>offset := js_add (offset p) (body_take p), bodyBytes := Some (body_left p),
          state := (if body_left p = Fin 0 then St_BODY_CHUNKEND else state p)\<rparr>)
       [OnBody (chunk p) (offset p) (body_take p)]"

definition chunk_end :: "string \<Rightarrow> parser \<Rightarrow> hres" where
  "chunk_end l p =
     (if l \<noteq> [] then Raise HPE_STRICT p
      else Continue False (p\<lparr>state := St_BODY_CHUNKHEAD\<rparr>) [])"

definition BODY_CHUNKEND :: "parser \<Rightarrow> hres" where
  "BODY_CHUNKEND p = with_line p chunk_end"

definition chunk_trailers :: "string \<Rightarrow> parser \<Rightarrow> hres" where
  "chunk_trailers l p =
     (if l \<noteq> [] then
        (case parseHeader l (trailers (info p)) of
           Inl e \<Rightarrow> Raise e p
         | Inr ts \<Rightarrow> Continue False (p\<lparr>info := (info p)\<lparr>trailers := ts\<rparr>\<rparr>) [])
      else Continue False (fst (nextRequest p))
             ((if trailers (info p) \<noteq> [] then [OnHeaders (trailers (info p)) []] else [])
              @ snd (nextRequest p)))"

definition BODY_CHUNKTRAILERS :: "parser \<Rightarrow> hres" where
  "BODY_CHUNKTRAILERS p = with_line p chunk_trailers"

definition BODY_RAW :: "parser \<Rightarrow> hres" where
  "BODY_RAW p =
     Continue False (p\<lparr>offset := Fin (of_nat (len p))\<rparr>)
       [OnBody (chunk p) (offset p) (js_sub (Fin (of_nat (len p))) (offset p))]"

definition BODY_SIZED :: "parser \<Rightarrow> hres" where
  "BODY_SIZED p =
     (if body_left p = Fin 0
      then Continue False
             (fst (nextRequest (p\<lparr>offset := js_add (offset p) (body_take p),
                                     bodyBytes := Some (body_left p)\<rparr>)))
             (OnBody (chunk p) (offset p) (body_take p) # snd (nextRequest p))
      else Continue False
             (p\<lparr>offset := js_add (offset p) (body_take p), bodyBytes := Some (body_left p)\<rparr>)
             [OnBody (chunk p) (offset p) (body_take p)])"

text \<open>\<^verbatim>\<open>this[this.state]()\<close>\<close>

definition dispatch :: "on_headers_complete \<Rightarrow> parser \<Rightarrow> hres" where
  "dispatch cb p =
     (case state p of
        St_REQUEST_LINE \<Rightarrow> REQUEST_LINE p
      | St_RESPONSE_LINE \<Rightarrow> RESPONSE_LINE p
      | St_HEADER \<Rightarrow> HEADER cb p
      | St_BODY_CHUNK \<Rightarrow> BODY_CHUNK p
      | St_BODY_CHUNKHEAD \<Rightarrow> BODY_CHUNKHEAD p
      | St_BODY_CHUNKEND \<Rightarrow> BODY_CHUNKEND p
      | St_BODY_CHUNKTRAILERS \<Rightarrow> BODY_CHUNKTRAILERS p
      | St_BODY_SIZED \<Rightarrow> BODY_SIZED p
      | St_BODY_RAW \<Rightarrow> BODY_RAW p)"

subsection \<open>execute and finish\<close>

text \<open>
  The loop of \<open>execute\<close> does not always end: a negative body length moves the offset
  back. It is therefore run with fuel, one unit for each call of a handler; \<open>None\<close>
  stands for a loop that is still running when the fuel is spent, or for a handler that
  hangs. The outcome of a finished loop says how it was left.
\<close>

datatype loop_exit = Done | Raised error_code | Threw

fun run :: "nat \<Rightarrow> on_headers_complete \<Rightarrow> parser \<Rightarrow> (loop_exit \<times> parser \<times> event list) option" where
  "run 0 cb p =
     (if js_lt (offset p) (Fin (of_nat (len p))) then None else Some (Done, p, []))"
| "run (Suc m) cb p =
     (if js_lt (offset p) (Fin (of_nat (len p))) then
        (case dispatch cb p of
           Hangs \<Rightarrow> None
         | Throws q \<Rightarrow> Some (Threw, q, [])
         | Raise e q \<Rightarrow> Some (Raised e, q, [])
         | Continue stop q es \<Rightarrow>
             if stop then Some (Done, q, es)
             else (case run m cb q of
                     None \<Rightarrow> None
                   | Some (x, q', es') \<Rightarrow> Some (x, q', es @ es')))
      else Some (Done, p, []))"

text \<open>
  What a call of \<open>execute\<close> gives its caller: the offset, a ParseError as a value, or
  an exception that is not a ParseError, which \<open>execute\<close> throws again.
\<close>

datatype outcome = Returned jsnum | Failed error_code | Exception

text \<open>The three assignments that open \<open>execute\<close>.\<close>

definition load :: "parser \<Rightarrow> char list \<Rightarrow> parser" where
  "load p c = p\<lparr>chunk := Some c, offset := Fin 0, len := length c\<rparr>"

definition execute ::
  "nat \<Rightarrow> on_headers_complete \<Rightarrow> parser \<Rightarrow> char list \<Rightarrow> (outcome \<times> parser \<times> event list) option" where
  "execute fuel cb p c =
     (case run fuel cb (load p c) of
        None \<Rightarrow> None
      | Some (Threw, q, es) \<Rightarrow> Some (Exception, q, es)
      | Some (Raised e, q, es) \<Rightarrow> Some (Failed e, q\<lparr>hadError := True\<rparr>, es)
      | Some (Done, q, es) \<Rightarrow>
          (let q1 = q\<lparr>chunk := None\<rparr> in
           if state q1 \<in> set HEADER_STATES then
             (let q2 = q1\<lparr>headerSize := js_add (headerSize q1) (offset q1)\<rparr> in
              if js_lt (Fin maxHeaderSize) (headerSize q2)
              then Some (Failed HPE_HEADER_OVERFLOW, q2, es)
              else Some (Returned (offset q2), q2, es))
           else Some (Returned (offset q1), q1, es)))"

text \<open>\<open>finish\<close> returns a ParseError or nothing.\<close>

definition finish :: "parser \<Rightarrow> error_code option \<times> parser \<times> event list" where
  "finish p =
     (if hadError p then (None, p, [])
      else if state p \<notin> set FINISH_STATES then (Some HPE_INVALID_EOF_STATE, p, [])
      else if state p = St_BODY_RAW then (None, p, [OnMessageComplete])
      else (None, p, []))"

section \<open>Observing a call\<close>

text \<open>A host that always answers 0 to \<^verbatim>\<open>kOnHeadersComplete\<close>: parse the body.\<close>

definition proceed :: on_headers_complete where
  "proceed args = 0"

definition outcome_of :: "(outcome \<times> parser \<times> event list) option \<Rightarrow> outcome option" where
  "outcome_of r = map_option fst r"

definition parser_of :: "(outcome \<times> parser \<times> event list) option \<Rightarrow> parser option" where
  "parser_of r = map_option (fst \<circ> snd) r"

definition events_of :: "(outcome \<times> parser \<times> event list) option \<Rightarrow> event list option" where
  "events_of r = map_option (snd \<circ> snd) r"




text \<open>A handler's result with a function applied to the parser it leaves.\<close>

fun map_hres :: "(parser \<Rightarrow> parser) \<Rightarrow> hres \<Rightarrow> hres" where
  "map_hres f (Continue stop q es) = Continue stop (f q) es"
| "map_hres f (Raise e q) = Raise e (f q)"
| "map_hres f (Throws q) = Throws (f q)"
| "map_hres f Hangs = Hangs"

fun map_line :: "(parser \<Rightarrow> parser) \<Rightarrow> line_result \<Rightarrow> line_result" where
  "map_line f (Line l q) = Line l (f q)"
| "map_line f (NoLine q) = NoLine (f q)"
| "map_line f LineThrows = LineThrows"
| "map_line f Hang = Hang"

fun map_scan :: "(parser \<Rightarrow> parser) \<Rightarrow> scan_result \<Rightarrow> scan_result" where
  "map_scan f (ScanOk a b q) = ScanOk a b (f q)"
| "map_scan f (ScanRaise q) = ScanRaise (f q)"
| "map_scan f (ScanThrows q) = ScanThrows (f q)"

fun hres_parser :: "hres \<Rightarrow> parser option" where
  "hres_parser (Continue stop q es) = Some q"
| "hres_parser (Raise e q) = Some q"
| "hres_parser (Throws q) = Some q"
| "hres_parser Hangs = None"



definition differ :: "jsnum list \<Rightarrow> bool" where
  "differ ws = (\<exists>k. Suc k < length ws \<and> \<not> js_eq (ws ! Suc k) (ws ! k))"

text \<open>The input window of a parser: the chunk, the offset and the length.\<close>

definition set_window :: "char list option \<Rightarrow> jsnum \<Rightarrow> nat \<Rightarrow> parser \<Rightarrow> parser" where
  "set_window c off n p = p\<lparr>chunk := c, offset := off, len := n\<rparr>"

text \<open>The offset is NaN or at most the length.\<close>

definition offset_in_chunk :: "parser \<Rightarrow> bool" where
  "offset_in_chunk p = (offset p = NaN \<or> js_le (offset p) (Fin (of_nat (len p))))"


text \<open>A parser, and the result of a call, without the flag \<open>hadError\<close>.\<close>

definition clear_flag :: "parser \<Rightarrow> parser" where
  "clear_flag p = p\<lparr>hadError := False\<rparr>"

definition ignoring_flag ::
  "('a \<times> parser \<times> event list) option \<Rightarrow> ('a \<times> parser \<times> event list) option" where
  "ignoring_flag r = map_option (\<lambda>(x, q, es). (x, clear_flag q, es)) r"

section \<open>Feeding a message in chunks\<close>

text \<open>
  A host feeds the chunks of a stream to \<open>execute\<close> in order and stops at the first
  call that does not return a number. \<open>feed\<close> gives the outcome of the last call, the
  parser it leaves and the callbacks of all the calls.
\<close>

fun feed ::
  "nat \<Rightarrow> on_headers_complete \<Rightarrow> parser \<Rightarrow> char list list \<Rightarrow> (outcome \<times> parser \<times> event list) option" where
  "feed fuel cb p [] = Some (Returned (Fin 0), p, [])"
| "feed fuel cb p [c] = execute fuel cb p c"
| "feed fuel cb p (c # cs) =
     (case execute fuel cb p c of
        None \<Rightarrow> None
      | Some (Returned v, q, es) \<Rightarrow>
          (case feed fuel cb q cs of
             None \<Rightarrow> None
           | Some (r, q', es') \<Rightarrow> Some (r, q', es @ es'))
      | Some (r, q, es) \<Rightarrow> Some (r, q, es))"

text \<open>
  What the callbacks deliver, whatever the chunks were: the bytes that a call of
  \<^verbatim>\<open>kOnBody\<close> points at, and a sequence of callbacks in which the bytes of successive
  calls of \<^verbatim>\<open>kOnBody\<close> are joined.
\<close>

datatype delivery =
    Headers "string list" string
  | HeadersComplete hc_args
  | Body "char list"
  | MessageComplete

definition body_bytes :: "char list option \<Rightarrow> jsnum \<Rightarrow> jsnum \<Rightarrow> char list" where
  "body_bytes c a n =
     (case c of
        None \<Rightarrow> []
      | Some b \<Rightarrow>
         (case a of
            Fin x \<Rightarrow> (case n of Fin y \<Rightarrow> take (nat \<lfloor>y\<rfloor>) (drop (nat \<lfloor>x\<rfloor>) b) | _ \<Rightarrow> [])
          | _ \<Rightarrow> []))"

fun add_body :: "char list \<Rightarrow> delivery list \<Rightarrow> delivery list" where
  "add_body bs (Body x # ds) = Body (bs @ x) # ds"
| "add_body bs ds = Body bs # ds"

fun delivered :: "event list \<Rightarrow> delivery list" where
  "delivered [] = []"
| "delivered (OnBody c a n # es) = add_body (body_bytes c a n) (delivered es)"
| "delivered (OnHeaders h u # es) = Headers h u # delivered es"
| "delivered (OnHeadersComplete args # es) = HeadersComplete args # delivered es"
| "delivered (OnMessageComplete # es) = MessageComplete # delivered es"

text \<open>
  An ordinary callback: a body of a positive whole number of bytes, or headers that do
  not announce an upgrade.
\<close>

definition ordinary :: "event \<Rightarrow> bool" where
  "ordinary ev =
     (case ev of
        OnBody c a n \<Rightarrow> (case n of Fin y \<Rightarrow> 0 < y \<and> of_int \<lfloor>y\<rfloor> = y | _ \<Rightarrow> False)
      | OnHeadersComplete args \<Rightarrow> \<not> arg_upgrade args
      | _ \<Rightarrow> True)"

text \<open>
  The fields of a parser that describe the message and the state of the parse: all but
  the input window and the count of header bytes.
\<close>

definition core :: "parser \<Rightarrow> parser" where
  "core p = p\<lparr>chunk := None, offset := Fin 0, len := 0, headerSize := Fin 0\<rparr>"

definition clear_size :: "parser \<Rightarrow> parser" where
  "clear_size p = p\<lparr>headerSize := Fin 0\<rparr>"

fun same_kind :: "outcome \<Rightarrow> outcome \<Rightarrow> bool" where
  "same_kind (Returned v) (Returned w) = True"
| "same_kind (Failed e) (Failed f) = (e = f)"
| "same_kind Exception Exception = True"
| "same_kind r s = False"

text \<open>
  A parser that reads the chunk \<open>c\<close> at the offset \<open>k\<close>, and the parser that reads the
  same bytes inside the larger chunk \<open>pre @ c @ post\<close>.
\<close>

definition at_window :: "char list \<Rightarrow> nat \<Rightarrow> parser \<Rightarrow> bool" where
  "at_window c k q = (chunk q = Some c \<and> len q = length c \<and> offset q = Fin (of_nat k) \<and> k \<le> length c)"

definition embed :: "char list \<Rightarrow> char list \<Rightarrow> char list \<Rightarrow> jsnum \<Rightarrow> nat \<Rightarrow> parser \<Rightarrow> parser" where
  "embed pre c post h k q =
     q\<lparr>chunk := Some (pre @ c @ post), offset := Fin (of_nat (length pre + k)),
       len := length pre + length c + length post, headerSize := h\<rparr>"

section \<open>Evaluation\<close>

lemma bit_length_numeral:
  "bit_length 0 = 0"
  "bit_length (Suc 0) = 1"
  "bit_length (numeral k) = Suc (bit_length (numeral k div 2))"
  by (simp_all add: bit_length.simps [of 0] bit_length.simps [of "Suc 0"]
        bit_length.simps [of "numeral k"])

lemmas parser_defs =
  js_sub_def js_le_def js_eq_def js_min_def bit_length_numeral round_half_even_def
  binary_exponent_def nearest_double_def to_double_def code_of_def to_string_def
  is_upper_def is_digit_def to_lower_def methods_def maxHeaderSize_def is_js_space_def
  digit_val_def is_hex_def is_octal_def is_binary_def radix_val_def exponent_part_def
  unsigned_decimal_def prefixed_literal_def to_number_def parseInt16_def
  ws_char_def name_char_def dot_char_def rstrip_def dot_star_nonws_def HEADER_REGEX_def
  HEADER_CONTINUE_REGEX_def method_char_def not_space_def http_version_def REQUEST_REGEX_def
  RESPONSE_REGEX_def empty_info_def initialize_def new_parser_def HEADER_STATES_def
  FINISH_STATES_def nextRequest_def find_lf_def strip_cr_def consumeLine_def parseHeader_def
  with_line_def request_line_def REQUEST_LINE_def implied_zero_def response_line_def
  RESPONSE_LINE_def positive_def shouldKeepAlive_def append_connection_def
  scan_header_def is_connect_def args_of_def chunked_wins_def upgrade_decision_def
  set_upgrade_def set_keep_alive_def transition_def call_headers_complete_def decide_def
  headers_complete_def header_line_def HEADER_def body_num_def chunk_head_def
  BODY_CHUNKHEAD_def body_take_def body_left_def BODY_CHUNK_def chunk_end_def BODY_CHUNKEND_def
  chunk_trailers_def BODY_CHUNKTRAILERS_def BODY_RAW_def BODY_SIZED_def dispatch_def load_def
  execute_def finish_def proceed_def outcome_of_def parser_of_def events_of_def Let_def

lemma run_numeral:
  "run (numeral k) cb p =
     (if js_lt (offset p) (Fin (of_nat (len p))) then
        (case dispatch cb p of
           Hangs \<Rightarrow> None
         | Throws q \<Rightarrow> Some (Threw, q, [])
         | Raise e q \<Rightarrow> Some (Raised e, q, [])
         | Continue stop q es \<Rightarrow>
             if stop then Some (Done, q, es)
             else (case run (pred_numeral k) cb q of
                     None \<Rightarrow> None
                   | Some (x, q', es') \<Rightarrow> Some (x, q', es @ es')))
      else Some (Done, p, []))"
  using run.simps(2)[of "pred_numeral k" cb p] by (simp only: numeral_eq_Suc)

section \<open>Keep-alive without a Connection header\<close>

text \<open>
  Without a Connection header \<^verbatim>\<open>info.connection\<close> stays undefined, and
  \<open>shouldKeepAlive\<close> then answers the opposite of what the versions suggest: false for
  a version with both numbers positive, and the framing test for every other version.
\<close>

lemma shouldKeepAlive_no_connection:
  "connection (info p) = None \<Longrightarrow>
   shouldKeepAlive p =
     (\<not> (positive (versionMajor (info p)) \<and> positive (versionMinor (info p)))
      \<and> (bodyBytes p \<noteq> None \<or> isChunked p))"
  by (simp add: shouldKeepAlive_def)

text \<open>
  Claim C2 says that a message without a Connection header whose version numbers are
  both positive has \<open>should_keep_alive\<close> true when the framing is determinate, and that
  the request \<^verbatim>\<open>GET / HTTP/1.1\r\nHost: x\r\n\r\n\<close> in one chunk calls
  \<open>on_headers_complete\<close> with \<open>should_keep_alive = true\<close>. The code calls it with
  \<open>should_keep_alive = false\<close>: this theorem is the run of \<open>execute\<close> on that request.
\<close>

theorem C2_minimal_get_keep_alive_false:
  "execute 3 proceed (new_parser REQUEST)
     (''GET / HTTP/1.1'' @ [CR, LF] @ ''Host: x'' @ [CR, LF] @ [CR, LF]) =
   Some (Returned (Fin 27),
     (new_parser REQUEST)\<lparr>offset := Fin 27, len := 27, headerSize := Fin 27\<rparr>,
     [OnHeadersComplete
        \<lparr>arg_versionMajor = Some 1, arg_versionMinor = Some 1,
         arg_headers = [''Host'', ''x''], arg_method = Some 1, arg_url = Some ''/'',
         arg_statusCode = None, arg_statusMessage = None, arg_upgrade = False,
         arg_shouldKeepAlive = False\<rparr>,
      OnMessageComplete])"
  by (simp add: parser_defs run_numeral)

section \<open>Exceptions that leave execute\<close>

text \<open>
  Claim C3 says that \<open>execute\<close> returns a count or a ParseError for every chunk and
  never lets an exception through, in particular for a message with an Upgrade header
  and no Connection header. On such a message \<^verbatim>\<open>this.info.connection!.indexOf\<close> is
  called on undefined; the TypeError is not a ParseError, and \<open>execute\<close> throws it
  again. This theorem is the run of \<open>execute\<close> on such a request.
\<close>

theorem C3_upgrade_without_connection_throws:
  "execute 3 proceed (new_parser REQUEST)
     (''GET / HTTP/1.1'' @ [CR, LF] @ ''Upgrade: websocket'' @ [CR, LF] @ [CR, LF]) =
   Some (Exception,
     (new_parser REQUEST)\<lparr>state := St_HEADER,
        info := empty_info\<lparr>method := Some 1, url := Some ''/'', versionMajor := Some 1,
                           versionMinor := Some 1, headers := [''Upgrade'', ''websocket'']\<rparr>,
        chunk := Some (''GET / HTTP/1.1'' @ [CR, LF] @ ''Upgrade: websocket'' @ [CR, LF]
                       @ [CR, LF]),
        offset := Fin 38, len := 38, bodyBytes := Some (Fin 0)\<rparr>,
     [])"
  by (simp add: parser_defs run_numeral)

section \<open>Lemmas on the line reader\<close>

lemma length_takeWhile_mem: "x \<in> set r \<Longrightarrow> length (takeWhile (\<lambda>b. b \<noteq> x) r) < length r"
  by (induction r) auto

lemma find_lf_less: "find_lf s e c = Some i \<Longrightarrow> s \<le> i \<and> i < e"
proof -
  assume a: "find_lf s e c = Some i"
  define r where "r = take (e - s) (drop s c)"
  from a have m: "LF \<in> set r" and i: "i = s + length (takeWhile (\<lambda>b. b \<noteq> LF) r)"
    by (auto simp: find_lf_def Let_def r_def split: if_splits)
  have "length (takeWhile (\<lambda>b. b \<noteq> LF) r) < length r"
    using m by (rule length_takeWhile_mem)
  moreover have "length r \<le> e - s" by (simp add: r_def)
  ultimately show ?thesis using i by linarith
qed

lemma consumeLine_Line:
  "consumeLine p = Line l p' \<Longrightarrow> \<exists>i<len p. p' = p\<lparr>line := [], offset := Fin (of_nat i + 1)\<rparr>"
  by (auto simp: consumeLine_def Let_def split: option.splits jsnum.splits if_splits dest: find_lf_less)

lemma consumeLine_NoLine:
  "consumeLine p = NoLine p' \<Longrightarrow> p' = p\<lparr>line := line p', offset := Fin (of_nat (len p))\<rparr>"
  by (auto simp: consumeLine_def Let_def split: option.splits jsnum.splits if_splits)

lemma index_of_ge: "index_of xs x \<ge> -1"
  by (induction xs) (auto simp: Let_def)

lemma index_of_absent: "index_of xs x = -1 \<longleftrightarrow> x \<notin> set xs"
proof (induction xs)
  case Nil
  show ?case by simp
next
  case (Cons y ys)
  then show ?case using index_of_ge [of ys x] by (auto simp: Let_def)
qed

section \<open>The rest of a handler does not read the window\<close>

lemma scan_header_window:
  "scan_header n v x y (set_window c off k p) = map_scan (set_window c off k) (scan_header n v x y p)"
  by (simp add: scan_header_def set_window_def Let_def split: option.splits)

lemma scan_headers_window:
  "scan_headers hs x y (set_window c off k p) = map_scan (set_window c off k) (scan_headers hs x y p)"
proof (induction hs x y p rule: scan_headers.induct)
  case (3 n v hs hasCL hasUp p)
  show ?case
  proof (cases "scan_header n (Some v) hasCL hasUp p")
    case (ScanOk a b q)
    then show ?thesis using 3 by (simp add: scan_header_window)
  qed (simp_all add: scan_header_window)
qed (simp_all add: scan_header_window)

lemma transition_window:
  "transition i ev (set_window c off k p) = map_hres (set_window c off k) (transition i ev p)"
  by (simp add: transition_def nextRequest_def initialize_def set_window_def)

lemma shouldKeepAlive_window: "shouldKeepAlive (set_window c off k p) = shouldKeepAlive p"
  by (simp add: shouldKeepAlive_def set_window_def)

lemma upgrade_decision_window: "upgrade_decision u (set_window c off k p) = upgrade_decision u p"
  by (simp add: upgrade_decision_def set_window_def split: option.splits)

lemma chunked_wins_window:
  "chunked_wins h (set_window c off k p) = set_window c off k (chunked_wins h p)"
  by (simp add: chunked_wins_def set_window_def)

lemma set_upgrade_window:
  "set_upgrade u (set_window c off k p) = set_window c off k (set_upgrade u p)"
  by (simp add: set_upgrade_def set_window_def)

lemma set_keep_alive_window:
  "set_keep_alive u (set_window c off k p) = set_window c off k (set_keep_alive u p)"
  by (simp add: set_keep_alive_def set_window_def)

lemma args_of_window: "args_of (set_window c off k p) ka = args_of p ka"
  by (simp add: args_of_def set_window_def)

lemma call_headers_complete_window:
  "call_headers_complete cb ka (set_window c off k p) =
   map_hres (set_window c off k) (call_headers_complete cb ka p)"
  by (simp add: call_headers_complete_def args_of_window set_keep_alive_window transition_window)

lemma decide_window:
  "decide cb u (set_window c off k p) = map_hres (set_window c off k) (decide cb u p)"
  by (simp add: decide_def upgrade_decision_window set_upgrade_window shouldKeepAlive_window
      call_headers_complete_window split: option.splits)

lemma headers_complete_window:
  "headers_complete cb (set_window c off k p) = map_hres (set_window c off k) (headers_complete cb p)"
proof -
  have i: "info (set_window c off k p) = info p" by (simp add: set_window_def)
  show ?thesis
    by (cases "scan_headers (headers (info p)) False False p")
       (simp_all add: headers_complete_def i scan_headers_window chunked_wins_window decide_window)
qed

lemma request_line_window:
  "request_line l (set_window c off k p) = map_hres (set_window c off k) (request_line l p)"
  by (simp add: request_line_def set_window_def split: option.splits prod.splits)

lemma response_line_window:
  "response_line l (set_window c off k p) = map_hres (set_window c off k) (response_line l p)"
  by (simp add: response_line_def set_window_def split: option.splits prod.splits)

lemma header_line_window:
  "header_line cb l (set_window c off k p) = map_hres (set_window c off k) (header_line cb l p)"
proof (cases "l = []")
  case True
  then show ?thesis by (simp add: header_line_def headers_complete_window)
next
  case False
  then show ?thesis by (simp add: header_line_def set_window_def split: sum.splits)
qed

lemma chunk_head_window:
  "chunk_head l (set_window c off k p) = map_hres (set_window c off k) (chunk_head l p)"
  by (simp add: chunk_head_def set_window_def)

lemma chunk_end_window:
  "chunk_end l (set_window c off k p) = map_hres (set_window c off k) (chunk_end l p)"
  by (simp add: chunk_end_def set_window_def)

lemma chunk_trailers_window:
  "chunk_trailers l (set_window c off k p) = map_hres (set_window c off k) (chunk_trailers l p)"
  by (simp add: chunk_trailers_def set_window_def nextRequest_def initialize_def split: sum.splits)

lemmas rest_window =
  request_line_window response_line_window header_line_window chunk_head_window
  chunk_end_window chunk_trailers_window

lemma set_window_id: "set_window (chunk p) (offset p) (len p) p = p"
  by (simp add: set_window_def)

lemma set_window_eqD:
  assumes "q = set_window c off k q"
  shows "chunk q = c \<and> offset q = off \<and> len q = k"
proof -
  have "chunk q = chunk (set_window c off k q)" using assms by (rule arg_cong)
  moreover have "offset q = offset (set_window c off k q)" using assms by (rule arg_cong)
  moreover have "len q = len (set_window c off k q)" using assms by (rule arg_cong)
  ultimately show ?thesis by (simp add: set_window_def)
qed

lemma window_fixed:
  assumes "K (set_window (chunk p) (offset p) (len p) p) =
           map_hres (set_window (chunk p) (offset p) (len p)) (K p)"
    and "hres_parser (K p) = Some q"
  shows "chunk q = chunk p \<and> offset q = offset p \<and> len q = len p"
proof -
  have e: "K p = map_hres (set_window (chunk p) (offset p) (len p)) (K p)"
    using assms(1) by (simp add: set_window_id)
  have "q = set_window (chunk p) (offset p) (len p) q"
  proof (cases "K p")
    case (Continue s q' es)
    then show ?thesis using e assms(2) by simp
  next
    case (Raise e' q')
    then show ?thesis using e assms(2) by simp
  next
    case (Throws q')
    then show ?thesis using e assms(2) by simp
  next
    case Hangs
    then show ?thesis using assms(2) by simp
  qed
  then show ?thesis by (rule set_window_eqD)
qed

lemma rest_fixes_window:
  assumes "hres_parser r = Some q"
    and "r = request_line l p \<or> r = response_line l p \<or> r = header_line cb l p
         \<or> r = chunk_head l p \<or> r = chunk_end l p \<or> r = chunk_trailers l p"
  shows "chunk q = chunk p \<and> offset q = offset p \<and> len q = len p"
  using assms window_fixed [of "request_line l" p q] window_fixed [of "response_line l" p q]
    window_fixed [of "header_line cb l" p q] window_fixed [of "chunk_head l" p q]
    window_fixed [of "chunk_end l" p q] window_fixed [of "chunk_trailers l" p q]
  by (auto simp: rest_window)

section \<open>The offset stays in the chunk\<close>

lemma body_step_in_chunk:
  "js_add off (js_min (js_sub (Fin L) off) b) = NaN
   \<or> js_le (js_add off (js_min (js_sub (Fin L) off) b)) (Fin L)"
  by (cases off; cases b) (auto simp: js_min_def js_sub_def js_le_def)

lemma of_nat_succ_le:
  assumes "i < n"
  shows "(of_nat i + 1 :: rat) = of_nat n \<or> of_nat i + 1 < (of_nat n :: rat)"
proof -
  have "Suc i \<le> n" using assms by simp
  then have "(of_nat (Suc i) :: rat) \<le> of_nat n" by (simp only: of_nat_le_iff)
  then show ?thesis by (auto simp: add.commute)
qed

lemma with_line_in_chunk:
  assumes "with_line p K = Continue s q es"
    and "\<And>l p'. hres_parser (K l p') = Some q \<Longrightarrow> offset q = offset p' \<and> len q = len p'"
  shows "len q = len p \<and> offset_in_chunk q"
proof (cases "consumeLine p")
  case (Line l p')
  then obtain i where i: "i < len p" and p': "p' = p\<lparr>line := [], offset := Fin (of_nat i + 1)\<rparr>"
    using consumeLine_Line by blast
  have "K l p' = Continue s q es" using assms(1) Line by (simp add: with_line_def)
  then have "hres_parser (K l p') = Some q" by simp
  then have "offset q = offset p' \<and> len q = len p'" by (rule assms(2))
  then show ?thesis using of_nat_succ_le [OF i] p' by (simp add: offset_in_chunk_def js_le_def)
next
  case (NoLine p')
  then have "p' = p\<lparr>line := line p', offset := Fin (of_nat (len p))\<rparr>"
    by (rule consumeLine_NoLine)
  moreover have "q = p'" using assms(1) NoLine by (simp add: with_line_def)
  ultimately have "offset q = Fin (of_nat (len p)) \<and> len q = len p"
    by (metis parser.select_convs parser.surjective parser.update_convs)
  then show ?thesis by (simp add: offset_in_chunk_def js_le_def)
next
  case LineThrows
  then show ?thesis using assms(1) by (simp add: with_line_def)
next
  case Hang
  then show ?thesis using assms(1) by (simp add: with_line_def)
qed

lemma dispatch_in_chunk:
  assumes "dispatch cb p = Continue s q es"
  shows "len q = len p \<and> offset_in_chunk q"
proof (cases "state p")
  case St_REQUEST_LINE
  then show ?thesis using assms rest_fixes_window [of _ q]
    by (auto simp: dispatch_def REQUEST_LINE_def intro!: with_line_in_chunk [of p _ s q es])
next
  case St_RESPONSE_LINE
  then show ?thesis using assms rest_fixes_window [of _ q]
    by (auto simp: dispatch_def RESPONSE_LINE_def intro!: with_line_in_chunk [of p _ s q es])
next
  case St_HEADER
  then show ?thesis using assms rest_fixes_window [of _ q]
    by (auto simp: dispatch_def HEADER_def intro!: with_line_in_chunk [of p _ s q es])
next
  case St_BODY_CHUNK
  then show ?thesis using assms body_step_in_chunk [of "offset p" "of_nat (len p)" "body_num p"]
    by (auto simp: dispatch_def BODY_CHUNK_def offset_in_chunk_def body_take_def)
next
  case St_BODY_CHUNKHEAD
  then show ?thesis using assms rest_fixes_window [of _ q]
    by (auto simp: dispatch_def BODY_CHUNKHEAD_def intro!: with_line_in_chunk [of p _ s q es])
next
  case St_BODY_CHUNKEND
  then show ?thesis using assms rest_fixes_window [of _ q]
    by (auto simp: dispatch_def BODY_CHUNKEND_def intro!: with_line_in_chunk [of p _ s q es])
next
  case St_BODY_CHUNKTRAILERS
  then show ?thesis using assms rest_fixes_window [of _ q]
    by (auto simp: dispatch_def BODY_CHUNKTRAILERS_def intro!: with_line_in_chunk [of p _ s q es])
next
  case St_BODY_SIZED
  then show ?thesis using assms body_step_in_chunk [of "offset p" "of_nat (len p)" "body_num p"]
    by (auto simp: dispatch_def BODY_SIZED_def offset_in_chunk_def body_take_def nextRequest_def
        initialize_def split: if_splits)
next
  case St_BODY_RAW
  then show ?thesis using assms
    by (auto simp: dispatch_def BODY_RAW_def offset_in_chunk_def js_le_def)
qed

lemma run_in_chunk:
  "run n cb p = Some (Done, q, es) \<Longrightarrow> offset_in_chunk p \<Longrightarrow> len q = len p \<and> offset_in_chunk q"
proof (induction n arbitrary: p es)
  case 0
  then show ?case by (simp split: if_splits)
next
  case (Suc n)
  show ?case
  proof (cases "js_lt (offset p) (Fin (of_nat (len p)))")
    case False
    then show ?thesis using Suc.prems by simp
  next
    case True
    show ?thesis
    proof (cases "dispatch cb p")
      case (Continue stop p1 es1)
      have s1: "len p1 = len p \<and> offset_in_chunk p1" using Continue by (rule dispatch_in_chunk)
      show ?thesis
      proof (cases stop)
        case True
        then show ?thesis using Suc.prems \<open>js_lt (offset p) (Fin (of_nat (len p)))\<close> Continue s1 by simp
      next
        case False
        then obtain es2 where "run n cb p1 = Some (Done, q, es2)"
          using Suc.prems(1) \<open>js_lt (offset p) (Fin (of_nat (len p)))\<close> Continue
          by (auto split: option.splits)
        then have "len q = len p1 \<and> offset_in_chunk q" using s1 by (intro Suc.IH) auto
        then show ?thesis using s1 by simp
      qed
    qed (use Suc.prems True in auto)
  qed
qed

text \<open>
  Claim C7 says that a number returned by \<open>execute\<close> is at most the length of the chunk.
  The number is the offset, and a Content-Length that is not a number makes it NaN, of
  which \<^verbatim>\<open>NaN <= length\<close> is false. What holds for every parser, chunk and callback:
  the number returned is NaN or at most the length of the chunk.
\<close>

theorem C7_consumed_at_most_chunk_or_NaN:
  assumes "execute fuel cb p c = Some (Returned v, q, es)"
  shows "v = NaN \<or> js_le v (Fin (of_nat (length c)))"
proof -
  have l: "offset_in_chunk (load p c)" by (simp add: load_def offset_in_chunk_def js_le_def)
  from assms obtain q0 where r: "run fuel cb (load p c) = Some (Done, q0, es)" and v: "v = offset q0"
    by (auto simp: execute_def Let_def split: option.splits prod.splits loop_exit.splits if_splits)
  have "len q0 = len (load p c) \<and> offset_in_chunk q0" using r l by (rule run_in_chunk)
  then show ?thesis using v by (auto simp: load_def offset_in_chunk_def)
qed

section \<open>A counted body is never zero\<close>












section \<open>The flag hadError\<close>

lemma consumeLine_flag:
  "consumeLine (p\<lparr>hadError := b\<rparr>) = map_line (\<lambda>q. q\<lparr>hadError := b\<rparr>) (consumeLine p)"
  by (simp add: consumeLine_def Let_def split: option.splits jsnum.splits)

lemma scan_header_flag:
  "scan_header n v x y (p\<lparr>hadError := b\<rparr>) = map_scan (\<lambda>q. q\<lparr>hadError := b\<rparr>) (scan_header n v x y p)"
  by (simp add: scan_header_def Let_def split: option.splits)

lemma scan_headers_flag:
  "scan_headers hs x y (p\<lparr>hadError := b\<rparr>) = map_scan (\<lambda>q. q\<lparr>hadError := b\<rparr>) (scan_headers hs x y p)"
proof (induction hs x y p rule: scan_headers.induct)
  case (3 n v hs hasCL hasUp p)
  show ?case
  proof (cases "scan_header n (Some v) hasCL hasUp p")
    case (ScanOk a c q)
    then show ?thesis using 3 by (simp add: scan_header_flag)
  qed (simp_all add: scan_header_flag)
qed (simp_all add: scan_header_flag)

lemma transition_flag:
  "map_hres clear_flag (transition k ev (p\<lparr>hadError := b\<rparr>)) = map_hres clear_flag (transition k ev p)"
  by (simp add: transition_def nextRequest_def initialize_def clear_flag_def)

lemma shouldKeepAlive_flag: "shouldKeepAlive (p\<lparr>hadError := b\<rparr>) = shouldKeepAlive p"
  by (simp add: shouldKeepAlive_def)

lemma upgrade_decision_flag: "upgrade_decision u (p\<lparr>hadError := b\<rparr>) = upgrade_decision u p"
  by (simp add: upgrade_decision_def split: option.splits)

lemma chunked_wins_flag: "chunked_wins c (p\<lparr>hadError := b\<rparr>) = (chunked_wins c p)\<lparr>hadError := b\<rparr>"
  by (simp add: chunked_wins_def)

lemma set_upgrade_flag: "set_upgrade u (p\<lparr>hadError := b\<rparr>) = (set_upgrade u p)\<lparr>hadError := b\<rparr>"
  by (simp add: set_upgrade_def)

lemma set_keep_alive_flag: "set_keep_alive u (p\<lparr>hadError := b\<rparr>) = (set_keep_alive u p)\<lparr>hadError := b\<rparr>"
  by (simp add: set_keep_alive_def)

lemma args_of_flag: "args_of (p\<lparr>hadError := b\<rparr>) k = args_of p k"
  by (simp add: args_of_def)

lemma call_headers_complete_flag:
  "map_hres clear_flag (call_headers_complete cb ka (p\<lparr>hadError := b\<rparr>)) = map_hres clear_flag (call_headers_complete cb ka p)"
  by (simp add: call_headers_complete_def args_of_flag set_keep_alive_flag transition_flag)

lemma decide_flag:
  "map_hres clear_flag (decide cb u (p\<lparr>hadError := b\<rparr>)) = map_hres clear_flag (decide cb u p)"
  by (simp add: decide_def upgrade_decision_flag set_upgrade_flag shouldKeepAlive_flag call_headers_complete_flag clear_flag_def split: option.splits)

lemma headers_complete_flag:
  "map_hres clear_flag (headers_complete cb (p\<lparr>hadError := b\<rparr>)) = map_hres clear_flag (headers_complete cb p)"
  by (cases "scan_headers (headers (info p)) False False p")
     (simp_all add: headers_complete_def scan_headers_flag chunked_wins_flag decide_flag clear_flag_def)

lemma rest_flag:
  "map_hres clear_flag (request_line l (p\<lparr>hadError := b\<rparr>)) = map_hres clear_flag (request_line l p)"
  "map_hres clear_flag (response_line l (p\<lparr>hadError := b\<rparr>)) = map_hres clear_flag (response_line l p)"
  "map_hres clear_flag (header_line cb l (p\<lparr>hadError := b\<rparr>)) = map_hres clear_flag (header_line cb l p)"
  "map_hres clear_flag (chunk_head l (p\<lparr>hadError := b\<rparr>)) = map_hres clear_flag (chunk_head l p)"
  "map_hres clear_flag (chunk_end l (p\<lparr>hadError := b\<rparr>)) = map_hres clear_flag (chunk_end l p)"
  "map_hres clear_flag (chunk_trailers l (p\<lparr>hadError := b\<rparr>)) = map_hres clear_flag (chunk_trailers l p)"
  by (simp_all add: request_line_def response_line_def header_line_def headers_complete_flag
      chunk_head_def chunk_end_def chunk_trailers_def clear_flag_def nextRequest_def initialize_def
      split: option.splits prod.splits sum.splits)

lemma with_line_flag:
  assumes "\<And>l q. map_hres clear_flag (K l (q\<lparr>hadError := b\<rparr>)) = map_hres clear_flag (K l q)"
  shows "map_hres clear_flag (with_line (p\<lparr>hadError := b\<rparr>) K) = map_hres clear_flag (with_line p K)"
  by (cases "consumeLine p") (simp_all add: with_line_def consumeLine_flag assms clear_flag_def)

lemma dispatch_flag:
  "map_hres clear_flag (dispatch cb (p\<lparr>hadError := b\<rparr>)) = map_hres clear_flag (dispatch cb p)"
  by (cases "state p")
     (simp_all add: dispatch_def REQUEST_LINE_def RESPONSE_LINE_def HEADER_def BODY_CHUNKHEAD_def
        BODY_CHUNKEND_def BODY_CHUNKTRAILERS_def with_line_flag rest_flag
        BODY_CHUNK_def BODY_SIZED_def BODY_RAW_def body_take_def body_left_def body_num_def
        clear_flag_def nextRequest_def initialize_def)

lemma clear_flag_fields:
  assumes "clear_flag p = clear_flag p'"
  shows "offset p = offset p'" "len p = len p'" "p' = p\<lparr>hadError := hadError p'\<rparr>"
proof -
  have "offset (clear_flag p) = offset (clear_flag p')" using assms by simp
  then show "offset p = offset p'" by (simp add: clear_flag_def)
  have "len (clear_flag p) = len (clear_flag p')" using assms by simp
  then show "len p = len p'" by (simp add: clear_flag_def)
  show "p' = p\<lparr>hadError := hadError p'\<rparr>"
    using assms by (cases p; cases p') (simp add: clear_flag_def)
qed

lemma dispatch_clear_flag:
  assumes "clear_flag p = clear_flag p'"
  shows "map_hres clear_flag (dispatch cb p') = map_hres clear_flag (dispatch cb p)"
proof -
  have "p' = p\<lparr>hadError := hadError p'\<rparr>" using assms by (rule clear_flag_fields)
  then show ?thesis using dispatch_flag [where cb = cb and p = p and b = "hadError p'"] by simp
qed

lemma run_clear_flag:
  "clear_flag p = clear_flag p' \<Longrightarrow> ignoring_flag (run n cb p') = ignoring_flag (run n cb p)"
proof (induction n arbitrary: p p')
  case 0
  then show ?case using clear_flag_fields(1,2) [OF 0]
    by (simp add: ignoring_flag_def)
next
  case (Suc n)
  have f: "offset p = offset p'" "len p = len p'" using clear_flag_fields(1,2) [OF Suc.prems] by simp_all
  have d: "map_hres clear_flag (dispatch cb p') = map_hres clear_flag (dispatch cb p)"
    using Suc.prems by (rule dispatch_clear_flag)
  show ?case
  proof (cases "js_lt (offset p) (Fin (of_nat (len p)))")
    case False
    then show ?thesis using f Suc.prems by (simp add: ignoring_flag_def)
  next
    case True
    show ?thesis
    proof (cases "dispatch cb p")
      case (Continue stop q es)
      then obtain q' where c': "dispatch cb p' = Continue stop q' es" and q: "clear_flag q' = clear_flag q"
        using d by (cases "dispatch cb p'") simp_all
      have "ignoring_flag (run n cb q') = ignoring_flag (run n cb q)"
        using q by (intro Suc.IH) simp
      then show ?thesis using True f Continue c' q
        by (cases "run n cb q"; cases "run n cb q'") (auto simp: ignoring_flag_def)
    next
      case (Raise e q)
      then obtain q' where "dispatch cb p' = Raise e q'" "clear_flag q' = clear_flag q"
        using d by (cases "dispatch cb p'") simp_all
      then show ?thesis using True f Raise by (simp add: ignoring_flag_def)
    next
      case (Throws q)
      then obtain q' where "dispatch cb p' = Throws q'" "clear_flag q' = clear_flag q"
        using d by (cases "dispatch cb p'") simp_all
      then show ?thesis using True f Throws by (simp add: ignoring_flag_def)
    next
      case Hangs
      then have "dispatch cb p' = Hangs" using d by (cases "dispatch cb p'") simp_all
      then show ?thesis using True f Hangs by (simp add: ignoring_flag_def)
    qed
  qed
qed

lemma ignoring_flag_SomeD:
  "ignoring_flag r' = ignoring_flag r \<Longrightarrow> r = Some (x, q, es) \<Longrightarrow>
   \<exists>q'. r' = Some (x, q', es) \<and> clear_flag q' = clear_flag q"
  by (cases r') (auto simp: ignoring_flag_def)

lemma execute_flag:
  "ignoring_flag (execute n cb (p\<lparr>hadError := b\<rparr>) c) = ignoring_flag (execute n cb p c)"
proof -
  have "clear_flag (load p c) = clear_flag (load (p\<lparr>hadError := b\<rparr>) c)"
    by (simp add: clear_flag_def load_def)
  then have r: "ignoring_flag (run n cb (load (p\<lparr>hadError := b\<rparr>) c)) = ignoring_flag (run n cb (load p c))"
    by (rule run_clear_flag)
  show ?thesis
  proof (cases "run n cb (load p c)")
    case None
    then have "run n cb (load (p\<lparr>hadError := b\<rparr>) c) = None"
      using r by (simp add: ignoring_flag_def)
    then show ?thesis using None by (simp add: execute_def)
  next
    case (Some t)
    obtain x q es where t: "t = (x, q, es)" by (cases t)
    obtain q' where r': "run n cb (load (p\<lparr>hadError := b\<rparr>) c) = Some (x, q', es)"
      and q: "clear_flag q' = clear_flag q"
      using ignoring_flag_SomeD [OF r] Some t by blast
    have s: "state q' = state q" "offset q' = offset q" "headerSize q' = headerSize q"
      using clear_flag_fields(3) [OF q [symmetric]]
      by (metis parser.select_convs parser.surjective parser.update_convs)+
    have u: "clear_flag (q'\<lparr>chunk := None\<rparr>) = clear_flag (q\<lparr>chunk := None\<rparr>)"
      "clear_flag (q'\<lparr>chunk := None, headerSize := h\<rparr>) = clear_flag (q\<lparr>chunk := None, headerSize := h\<rparr>)"
      "clear_flag (q'\<lparr>hadError := True\<rparr>) = clear_flag (q\<lparr>hadError := True\<rparr>)" for h
      using q by (cases q; cases q'; simp add: clear_flag_def)+
    show ?thesis using Some t r' s u q
      by (cases x) (simp_all add: execute_def ignoring_flag_def Let_def)
  qed
qed

text \<open>
  Claim C4 says that \<open>execute\<close> on a parser with \<open>had_error\<close> set returns at once,
  calls no handler and no callback and changes nothing. The loop of \<open>execute\<close> does not
  test the flag; only \<open>finish\<close> does. What holds: \<open>finish\<close> on a parser with the
  flag set returns nothing, calls nothing and changes nothing, and \<open>execute\<close> gives the
  same outcome, the same callbacks and, the flag apart, the same parser whether the
  flag is set or not.
\<close>

theorem C4_flag_is_read_by_finish_only:
  "(hadError p \<longrightarrow> finish p = (None, p, []))
   \<and> ignoring_flag (execute fuel cb (p\<lparr>hadError := True\<rparr>) c)
     = ignoring_flag (execute fuel cb (p\<lparr>hadError := False\<rparr>) c)"
  using execute_flag [where n = fuel and cb = cb and p = p and b = True and c = c]
    execute_flag [where n = fuel and cb = cb and p = p and b = False and c = c]
  by (simp add: finish_def)

section \<open>Errors of the request line\<close>

lemma method_char_prefix:
  "\<not> list_all method_char (takeWhile not_space l) \<Longrightarrow> REQUEST_REGEX l = None"
proof -
  assume a: "\<not> list_all method_char (takeWhile not_space l)"
  define m where "m = takeWhile method_char l"
  define r where "r = dropWhile method_char l"
  have l: "l = m @ r" by (simp add: m_def r_def)
  have "r \<noteq> [] \<and> hd r \<noteq> SP"
  proof (cases r)
    case Nil
    then have "list_all method_char l" using l by (simp add: m_def list_all_iff) (metis set_takeWhileD)
    then have "list_all method_char (takeWhile not_space l)" by (auto simp: list_all_iff dest: set_takeWhileD)
    with a show ?thesis by simp
  next
    case (Cons c cs)
    have nm: "\<not> method_char c" using Cons r_def by (metis hd_dropWhile list.sel(1) list.distinct(1))
    have "c \<noteq> SP"
    proof
      assume "c = SP"
      then have "takeWhile not_space l = takeWhile not_space m"
        using l Cons by (simp add: takeWhile_append not_space_def) (metis takeWhile_append1 takeWhile_eq_all_conv append_Nil2 takeWhile.simps(2) takeWhile_append2 not_space_def)
      then have "list_all method_char (takeWhile not_space l)"
        by (auto simp: list_all_iff m_def dest!: set_takeWhileD)
      with a show False by simp
    qed
    then show ?thesis using Cons by simp
  qed
  then show ?thesis by (simp add: REQUEST_REGEX_def Let_def r_def)
qed

lemma REQUEST_REGEX_shape:
  assumes "m \<noteq> []" "list_all method_char m" "u \<noteq> []" "list_all not_space u"
    "is_digit a" "is_digit b"
  shows "REQUEST_REGEX (m @ SP # u @ SP # ''HTTP/'' @ [a, CHR ''.'', b]) = Some (m, u, digit_val a, digit_val b)"
proof -
  have nm: "\<not> method_char SP" by (simp add: method_char_def is_upper_def code_of_def)
  have t1: "takeWhile method_char (m @ SP # r) = m" for r
    using assms(2) nm by (simp add: takeWhile_append2 list_all_iff)
  have d1: "dropWhile method_char (m @ SP # r) = SP # r" for r
    using assms(2) nm by (simp add: dropWhile_append2 list_all_iff)
  have t2: "takeWhile not_space (u @ SP # r) = u" for r
    using assms(4) by (simp add: takeWhile_append2 list_all_iff not_space_def)
  have d2: "dropWhile not_space (u @ SP # r) = SP # r" for r
    using assms(4) by (simp add: dropWhile_append2 list_all_iff not_space_def)
  show ?thesis
    using assms(1,3,5,6) by (simp add: REQUEST_REGEX_def Let_def t1 d1 t2 d2 http_version_def)
qed

text \<open>
  Claim C9 says that on a non-empty request line a first token of the characters A to Z
  and \<^verbatim>\<open>-\<close> that is not in the method table gives \<^verbatim>\<open>HPE_INVALID_METHOD\<close>, and a first
  token with another character \<^verbatim>\<open>HPE_INVALID_CONSTANT\<close>. The method is looked up only
  after the whole line has matched the regular expression. What holds: a line of the
  form \<^verbatim>\<open>METHOD SP TARGET SP HTTP/d.d\<close> whose method is not in the table gives
  \<^verbatim>\<open>HPE_INVALID_METHOD\<close>, and a line whose first token (the characters before the first
  space) has a character other than A to Z and \<^verbatim>\<open>-\<close> gives \<^verbatim>\<open>HPE_INVALID_CONSTANT\<close>.
\<close>

theorem C9_request_line_errors:
  assumes "consumeLine p = Line l p'" and "l \<noteq> []"
  shows "(\<forall>m u a b. l = m @ SP # u @ SP # ''HTTP/'' @ [a, CHR ''.'', b]
            \<and> m \<noteq> [] \<and> list_all method_char m \<and> u \<noteq> [] \<and> list_all not_space u
            \<and> is_digit a \<and> is_digit b \<and> m \<notin> set methods \<longrightarrow>
            REQUEST_LINE p = Raise HPE_INVALID_METHOD (p'\<lparr>info := (info p')\<lparr>method := Some (-1)\<rparr>\<rparr>))
       \<and> (\<not> list_all method_char (takeWhile not_space l) \<longrightarrow>
            REQUEST_LINE p = Raise HPE_INVALID_CONSTANT p')"
proof (intro conjI allI impI)
  fix m u a b
  assume a: "l = m @ SP # u @ SP # ''HTTP/'' @ [a, CHR ''.'', b]
            \<and> m \<noteq> [] \<and> list_all method_char m \<and> u \<noteq> [] \<and> list_all not_space u
            \<and> is_digit a \<and> is_digit b \<and> m \<notin> set methods"
  then have "REQUEST_REGEX l = Some (m, u, digit_val a, digit_val b)"
    using REQUEST_REGEX_shape by simp
  then show "REQUEST_LINE p = Raise HPE_INVALID_METHOD (p'\<lparr>info := (info p')\<lparr>method := Some (-1)\<rparr>\<rparr>)"
    using assms a by (simp add: REQUEST_LINE_def with_line_def request_line_def index_of_absent)
next
  assume "\<not> list_all method_char (takeWhile not_space l)"
  then have "REQUEST_REGEX l = None" by (rule method_char_prefix)
  then show "REQUEST_LINE p = Raise HPE_INVALID_CONSTANT p'"
    using assms by (simp add: REQUEST_LINE_def with_line_def request_line_def)
qed

section \<open>Continuation lines\<close>

text \<open>
  Claim C10 says that a line beginning with a space or a tab, read while the header list
  is empty, is dropped: the headers do not change, no error is raised and the parser
  stays in the state Header. \<open>parseHeader\<close> first rejects every line with a CR in it.
  What holds: such a line without a CR is dropped, with no callback, no error and the
  headers still empty; the parser changes in its line buffer and its offset only.
\<close>

theorem C10_continuation_without_headers:
  assumes "consumeLine p = Line l p'" and "l \<noteq> []" and "ws_char (hd l)"
    and "CR \<notin> set l" and "headers (info p) = []"
  shows "HEADER cb p = Continue False p' [] \<and> headers (info p') = [] \<and> state p' = state p"
proof -
  from assms(1) obtain i where p': "p' = p\<lparr>line := [], offset := Fin (of_nat i + 1)\<rparr>"
    using consumeLine_Line by blast
  have nn: "\<not> name_char (hd l)" using assms(3) by (auto simp: ws_char_def name_char_def)
  have "takeWhile name_char l = []" using assms(2) nn by (cases l) auto
  then have hr: "HEADER_REGEX l = None" by (simp add: HEADER_REGEX_def Let_def)
  have ph: "parseHeader l [] = Inr []"
    using assms(4) hr by (simp add: parseHeader_def split: option.splits)
  show ?thesis using assms(1,2,5) ph by (simp add: HEADER_def with_line_def header_line_def p')
qed

section \<open>Errors and the flag\<close>

text \<open>
  Claim C5 says that after every ParseError returned by \<open>execute\<close>, that for an overflow
  of the header size included, \<open>had_error\<close> is set, so that the following calls of
  \<open>execute\<close> and \<open>finish\<close> do nothing. A following \<open>execute\<close> does not read the flag
  (claim C4). What holds: after every ParseError other than \<^verbatim>\<open>HPE_HEADER_OVERFLOW\<close> the
  flag is set, and a following \<open>finish\<close> returns nothing, calls nothing and changes
  nothing.
\<close>

theorem C5_handler_errors_set_hadError:
  assumes "execute fuel cb p c = Some (Failed e, q, es)" and "e \<noteq> HPE_HEADER_OVERFLOW"
  shows "hadError q \<and> finish q = (None, q, [])"
  using assms
  by (auto simp: execute_def finish_def Let_def split: option.splits prod.splits loop_exit.splits if_splits)

section \<open>Content-Length headers\<close>


lemma differ_short [simp]: "\<not> differ []" "\<not> differ [a]"
  by (simp_all add: differ_def)












section \<open>Runs on concrete input\<close>

text \<open>
  A parser with the flag set, as a failed call leaves it, is given the chunk
  \<^verbatim>\<open>GET / HTTP/1.1\n\n\<close>: \<open>execute\<close> parses the message, makes two callbacks and,
  through \<open>initialize\<close>, clears the flag.
\<close>

theorem C4_counterexample:
  "hadError ((new_parser REQUEST)\<lparr>chunk := Some (''x'' @ [LF]), offset := Fin 2, len := 2,
                                  hadError := True\<rparr>)
   \<and> execute 2 proceed
        ((new_parser REQUEST)\<lparr>chunk := Some (''x'' @ [LF]), offset := Fin 2, len := 2,
                               hadError := True\<rparr>)
        (''GET / HTTP/1.1'' @ [LF, LF])
     = Some (Returned (Fin 16),
         (new_parser REQUEST)\<lparr>offset := Fin 16, len := 16, headerSize := Fin 16\<rparr>,
         [OnHeadersComplete
            \<lparr>arg_versionMajor = Some 1, arg_versionMinor = Some 1, arg_headers = [],
             arg_method = Some 1, arg_url = Some ''/'', arg_statusCode = None,
             arg_statusMessage = None, arg_upgrade = False, arg_shouldKeepAlive = False\<rparr>,
          OnMessageComplete])"
  by (simp add: parser_defs run_numeral)

text \<open>The first part of the theorem at a fresh parser with the flag set.\<close>

theorem C4_witness:
  "hadError ((new_parser REQUEST)\<lparr>hadError := True\<rparr>)
   \<and> finish ((new_parser REQUEST)\<lparr>hadError := True\<rparr>)
     = (None, (new_parser REQUEST)\<lparr>hadError := True\<rparr>, [])"
proof -
  have h: "hadError ((new_parser REQUEST)\<lparr>hadError := True\<rparr>)" by simp
  from C4_flag_is_read_by_finish_only [of "(new_parser REQUEST)\<lparr>hadError := True\<rparr>"]
  have "hadError ((new_parser REQUEST)\<lparr>hadError := True\<rparr>) \<longrightarrow>
        finish ((new_parser REQUEST)\<lparr>hadError := True\<rparr>)
          = (None, (new_parser REQUEST)\<lparr>hadError := True\<rparr>, [])"
    by (rule conjunct1)
  with h show ?thesis by blast
qed

lemma failing_call:
  "execute 1 proceed (new_parser REQUEST) (''x'' @ [LF]) =
   Some (Failed HPE_INVALID_CONSTANT,
         (new_parser REQUEST)\<lparr>chunk := Some (''x'' @ [LF]), offset := Fin 2, len := 2,
                                hadError := True\<rparr>, [])"
  by (simp add: parser_defs)

text \<open>
  The chunk \<^verbatim>\<open>x\n\<close> gives \<^verbatim>\<open>HPE_INVALID_CONSTANT\<close> and sets the flag; the next call,
  on \<^verbatim>\<open>GET / HTTP/1.1\n\<close>, reads the request line and moves to the state Header.
\<close>

theorem C5_counterexample:
  "execute 1 proceed (new_parser REQUEST) (''x'' @ [LF]) =
     Some (Failed HPE_INVALID_CONSTANT,
           (new_parser REQUEST)\<lparr>chunk := Some (''x'' @ [LF]), offset := Fin 2, len := 2,
                                  hadError := True\<rparr>, [])
   \<and> execute 1 proceed
        ((new_parser REQUEST)\<lparr>chunk := Some (''x'' @ [LF]), offset := Fin 2, len := 2,
                               hadError := True\<rparr>)
        (''GET / HTTP/1.1'' @ [LF])
     = Some (Returned (Fin 15),
         (new_parser REQUEST)\<lparr>state := St_HEADER,
            info := empty_info\<lparr>method := Some 1, url := Some ''/'', versionMajor := Some 1,
                               versionMinor := Some 1\<rparr>,
            offset := Fin 15, len := 15, headerSize := Fin 15, bodyBytes := Some (Fin 0),
            hadError := True\<rparr>,
         [])"
  by (simp add: parser_defs)

text \<open>The theorem at the failed call on \<^verbatim>\<open>x\n\<close>.\<close>

theorem C5_witness:
  "execute 1 proceed (new_parser REQUEST) (''x'' @ [LF]) =
     Some (Failed HPE_INVALID_CONSTANT,
           (new_parser REQUEST)\<lparr>chunk := Some (''x'' @ [LF]), offset := Fin 2, len := 2,
                                  hadError := True\<rparr>, [])
   \<and> HPE_INVALID_CONSTANT \<noteq> HPE_HEADER_OVERFLOW
   \<and> hadError ((new_parser REQUEST)\<lparr>chunk := Some (''x'' @ [LF]), offset := Fin 2, len := 2,
                                      hadError := True\<rparr>)
   \<and> finish ((new_parser REQUEST)\<lparr>chunk := Some (''x'' @ [LF]), offset := Fin 2, len := 2,
                                     hadError := True\<rparr>)
     = (None, (new_parser REQUEST)\<lparr>chunk := Some (''x'' @ [LF]), offset := Fin 2, len := 2,
                                     hadError := True\<rparr>, [])"
proof -
  have n: "HPE_INVALID_CONSTANT \<noteq> HPE_HEADER_OVERFLOW" by simp
  show ?thesis
    using failing_call n C5_handler_errors_set_hadError [OF failing_call n] by blast
qed




text \<open>
  The request \<^verbatim>\<open>GET / HTTP/1.1\nContent-Length: x\n\nabc\<close>: \<^verbatim>\<open>BODY_SIZED\<close> adds
  \<^verbatim>\<open>Math.min(3, NaN)\<close> to the offset, and \<open>execute\<close> returns NaN.
\<close>

theorem C7_counterexample:
  "outcome_of (execute 4 proceed (new_parser REQUEST)
     (''GET / HTTP/1.1'' @ [LF] @ ''Content-Length: x'' @ [LF, LF] @ ''abc'')) = Some (Returned NaN)
   \<and> \<not> js_le NaN (Fin (of_nat (length
        (''GET / HTTP/1.1'' @ [LF] @ ''Content-Length: x'' @ [LF, LF] @ ''abc''))))"
  by (simp add: parser_defs run_numeral)

lemma request_line_call:
  "execute 1 proceed (new_parser REQUEST) (''GET / HTTP/1.1'' @ [LF]) =
   Some (Returned (Fin 15),
     (new_parser REQUEST)\<lparr>state := St_HEADER,
        info := empty_info\<lparr>method := Some 1, url := Some ''/'', versionMajor := Some 1,
                           versionMinor := Some 1\<rparr>,
        offset := Fin 15, len := 15, headerSize := Fin 15, bodyBytes := Some (Fin 0)\<rparr>,
     [])"
  by (simp add: parser_defs)

text \<open>The theorem at the request line \<^verbatim>\<open>GET / HTTP/1.1\n\<close>, which returns 15.\<close>

theorem C7_witness:
  "execute 1 proceed (new_parser REQUEST) (''GET / HTTP/1.1'' @ [LF]) =
   Some (Returned (Fin 15),
     (new_parser REQUEST)\<lparr>state := St_HEADER,
        info := empty_info\<lparr>method := Some 1, url := Some ''/'', versionMajor := Some 1,
                           versionMinor := Some 1\<rparr>,
        offset := Fin 15, len := 15, headerSize := Fin 15, bodyBytes := Some (Fin 0)\<rparr>,
     [])
   \<and> (Fin 15 = NaN \<or> js_le (Fin 15) (Fin (of_nat (length (''GET / HTTP/1.1'' @ [LF])))))"
  using request_line_call C7_consumed_at_most_chunk_or_NaN [OF request_line_call] by blast

text \<open>
  The line \<^verbatim>\<open>FOO\<close>: its first token is made of capitals and is not a method, and the
  error is \<^verbatim>\<open>HPE_INVALID_CONSTANT\<close>.
\<close>

theorem C9_counterexample:
  "list_all method_char ''FOO'' \<and> ''FOO'' \<notin> set methods
   \<and> execute 1 proceed (new_parser REQUEST) (''FOO'' @ [LF]) =
     Some (Failed HPE_INVALID_CONSTANT,
           (new_parser REQUEST)\<lparr>chunk := Some (''FOO'' @ [LF]), offset := Fin 4, len := 4,
                                  hadError := True\<rparr>, [])"
  by (simp add: parser_defs)

lemma read_FOO:
  "consumeLine (load (new_parser REQUEST) (''FOO / HTTP/1.1'' @ [LF])) =
   Line ''FOO / HTTP/1.1''
     ((new_parser REQUEST)\<lparr>chunk := Some (''FOO / HTTP/1.1'' @ [LF]), offset := Fin 15, len := 15\<rparr>)"
  by (simp add: parser_defs)

lemma read_get:
  "consumeLine (load (new_parser REQUEST) (''get / HTTP/1.1'' @ [LF])) =
   Line ''get / HTTP/1.1''
     ((new_parser REQUEST)\<lparr>chunk := Some (''get / HTTP/1.1'' @ [LF]), offset := Fin 15, len := 15\<rparr>)"
  by (simp add: parser_defs)

text \<open>The theorem at the lines \<^verbatim>\<open>FOO / HTTP/1.1\<close> and \<^verbatim>\<open>get / HTTP/1.1\<close>.\<close>

theorem C9_witness:
  "REQUEST_LINE (load (new_parser REQUEST) (''FOO / HTTP/1.1'' @ [LF])) =
     Raise HPE_INVALID_METHOD
       ((new_parser REQUEST)\<lparr>chunk := Some (''FOO / HTTP/1.1'' @ [LF]), offset := Fin 15,
                              len := 15, info := empty_info\<lparr>method := Some (- 1)\<rparr>\<rparr>)
   \<and> REQUEST_LINE (load (new_parser REQUEST) (''get / HTTP/1.1'' @ [LF])) =
     Raise HPE_INVALID_CONSTANT
       ((new_parser REQUEST)\<lparr>chunk := Some (''get / HTTP/1.1'' @ [LF]), offset := Fin 15,
                              len := 15\<rparr>)"
proof -
  have n: "''FOO / HTTP/1.1'' \<noteq> []" "''get / HTTP/1.1'' \<noteq> []" by simp_all
  have s: "''FOO / HTTP/1.1'' = ''FOO'' @ SP # ''/'' @ SP # ''HTTP/'' @ [CHR ''1'', CHR ''.'', CHR ''1'']
      \<and> ''FOO'' \<noteq> [] \<and> list_all method_char ''FOO'' \<and> ''/'' \<noteq> [] \<and> list_all not_space ''/''
      \<and> is_digit CHR ''1'' \<and> is_digit CHR ''1'' \<and> ''FOO'' \<notin> set methods"
    by (simp add: method_char_def is_upper_def code_of_def not_space_def is_digit_def methods_def)
  have g: "\<not> list_all method_char (takeWhile not_space ''get / HTTP/1.1'')"
    by (simp add: method_char_def is_upper_def code_of_def not_space_def)
  have a: "REQUEST_LINE (load (new_parser REQUEST) (''FOO / HTTP/1.1'' @ [LF])) =
     Raise HPE_INVALID_METHOD
       (((new_parser REQUEST)\<lparr>chunk := Some (''FOO / HTTP/1.1'' @ [LF]), offset := Fin 15, len := 15\<rparr>)
          \<lparr>info := (info ((new_parser REQUEST)\<lparr>chunk := Some (''FOO / HTTP/1.1'' @ [LF]), offset := Fin 15, len := 15\<rparr>))\<lparr>method := Some (- 1)\<rparr>\<rparr>)"
    using C9_request_line_errors [OF read_FOO n(1)] s by blast
  have b: "REQUEST_LINE (load (new_parser REQUEST) (''get / HTTP/1.1'' @ [LF])) =
     Raise HPE_INVALID_CONSTANT
       ((new_parser REQUEST)\<lparr>chunk := Some (''get / HTTP/1.1'' @ [LF]), offset := Fin 15, len := 15\<rparr>)"
    using C9_request_line_errors [OF read_get n(2)] g by blast
  show ?thesis using a b by (simp add: new_parser_def initialize_def)
qed

text \<open>
  After the request line, the line \<^verbatim>\<open> a\rb\<close> begins with a space, the header list is
  empty, and \<open>execute\<close> returns \<^verbatim>\<open>HPE_LF_EXPECTED\<close>.
\<close>

theorem C10_counterexample:
  "execute 2 proceed (new_parser REQUEST)
     (''GET / HTTP/1.1'' @ [LF] @ '' a'' @ [CR] @ ''b'' @ [LF]) =
   Some (Failed HPE_LF_EXPECTED,
     (new_parser REQUEST)\<lparr>state := St_HEADER,
        info := empty_info\<lparr>method := Some 1, url := Some ''/'', versionMajor := Some 1,
                           versionMinor := Some 1\<rparr>,
        chunk := Some (''GET / HTTP/1.1'' @ [LF] @ '' a'' @ [CR] @ ''b'' @ [LF]),
        offset := Fin 20, len := 20, bodyBytes := Some (Fin 0), hadError := True\<rparr>,
     [])"
  by (simp add: parser_defs run_numeral)

lemma read_continuation:
  "consumeLine ((load (new_parser REQUEST) (''  x'' @ [LF]))\<lparr>state := St_HEADER\<rparr>) =
   Line ''  x''
     ((new_parser REQUEST)\<lparr>state := St_HEADER, chunk := Some (''  x'' @ [LF]), offset := Fin 4,
                            len := 4\<rparr>)"
  by (simp add: parser_defs)

text \<open>The theorem at the line of two spaces and an \<^verbatim>\<open>x\<close>.\<close>

theorem C10_witness:
  "HEADER proceed ((load (new_parser REQUEST) (''  x'' @ [LF]))\<lparr>state := St_HEADER\<rparr>) =
   Continue False
     ((new_parser REQUEST)\<lparr>state := St_HEADER, chunk := Some (''  x'' @ [LF]), offset := Fin 4,
                            len := 4\<rparr>) []
   \<and> headers (info ((new_parser REQUEST)\<lparr>state := St_HEADER, chunk := Some (''  x'' @ [LF]),
                                         offset := Fin 4, len := 4\<rparr>)) = []"
proof -
  have h: "''  x'' \<noteq> []" "ws_char (hd ''  x'')" "CR \<notin> set ''  x''"
    "headers (info ((load (new_parser REQUEST) (''  x'' @ [LF]))\<lparr>state := St_HEADER\<rparr>)) = []"
    by (simp_all add: ws_char_def load_def new_parser_def initialize_def empty_info_def)
  show ?thesis
    using C10_continuation_without_headers [OF read_continuation h, of proceed] by blast
qed



end
